theory Spec2Isabelle
  imports Complex_Main "HOL-Library.Monad_Syntax"
begin

section \<open>Numbers and arrays\<close>

text \<open>
  The simulation kernel computes with JavaScript numbers held in \<open>Float32Array\<close>
  buffers. The embedding idealises a finite number as an exact \<open>real\<close>: rounding and
  overflow are not modelled. A read of a typed array at an index outside it yields
  \<open>undefined\<close> in JavaScript; \<open>rd\<close> returns \<open>None\<close> there. A write outside a
  typed array is ignored, which is what \<open>xs[i := v]\<close> does.
\<close>

type_synonym vec3 = "real \<times> real \<times> real"

definition rd :: "'a list \<Rightarrow> nat \<Rightarrow> 'a option" where
  "rd xs i = (if i < length xs then Some (xs ! i) else None)"

text \<open>
  Mesh construction divides by the grid resolution without a guard, so its results are
  JavaScript numbers in full: a finite value, an infinity or NaN.
\<close>

datatype jsnum = Fin real | PInf | NInf | NaN

definition js_div_count :: "real \<Rightarrow> nat \<Rightarrow> jsnum" where
  \<comment> \<open>\<open>a / n\<close> for a finite \<open>a\<close> and a count \<open>n\<close>\<close>
  "js_div_count a n =
     (if n \<noteq> 0 then Fin (a / real n)
      else if 0 < a then PInf else if a < 0 then NInf else NaN)"

definition js_count_times :: "nat \<Rightarrow> jsnum \<Rightarrow> jsnum" where
  \<comment> \<open>\<open>i * d\<close> for a loop counter \<open>i\<close>\<close>
  "js_count_times i d =
     (case d of
        Fin s \<Rightarrow> Fin (real i * s)
      | PInf \<Rightarrow> if i = 0 then NaN else PInf
      | NInf \<Rightarrow> if i = 0 then NaN else NInf
      | NaN \<Rightarrow> NaN)"

definition js_plus :: "real \<Rightarrow> jsnum \<Rightarrow> jsnum" where
  \<comment> \<open>\<open>a + v\<close> for a finite \<open>a\<close>\<close>
  "js_plus a v = (case v of Fin r \<Rightarrow> Fin (a + r) | PInf \<Rightarrow> PInf | NInf \<Rightarrow> NInf | NaN \<Rightarrow> NaN)"

section \<open>TetrahedralMesh\<close>

text \<open>
  The fields of class \<open>TetrahedralMesh\<close> after \<open>createRegularMesh\<close> has run. The
  buffers are flat: node \<open>n\<close> occupies entries \<open>3n, 3n+1, 3n+2\<close> of \<open>nodes\<close>,
  tetrahedron \<open>t\<close> entries \<open>4t .. 4t+3\<close> of \<open>tetrahedra\<close>. The type parameter is the
  type of a buffer entry: \<open>jsnum\<close> for the mesh as constructed, \<open>real\<close> for the
  mesh the simulation phases compute with.
\<close>

record 'n TetrahedralMesh =
  domainMin :: vec3
  domainMax :: vec3
  nodes :: "'n list"
  nodeVelocities :: "'n list"
  tetrahedra :: "nat list"
  nodeCount :: nat
  tetCount :: nat

subsection \<open>createRegularMesh\<close>

definition getNodeIndex :: "nat \<Rightarrow> nat \<Rightarrow> nat \<Rightarrow> nat \<Rightarrow> nat \<Rightarrow> nat" where
  "getNodeIndex nx ny i j k = i + j * (nx + 1) + k * (nx + 1) * (ny + 1)"

definition gridNodes :: "vec3 \<Rightarrow> vec3 \<Rightarrow> nat \<Rightarrow> nat \<Rightarrow> nat \<Rightarrow> jsnum list" where
  "gridNodes dmin dmax nx ny nz =
     (case (dmin, dmax) of ((x0, y0, z0), (x1, y1, z1)) \<Rightarrow>
        let dx = js_div_count (x1 - x0) nx;
            dy = js_div_count (y1 - y0) ny;
            dz = js_div_count (z1 - z0) nz
        in concat (map (\<lambda>k.
             concat (map (\<lambda>j.
               concat (map (\<lambda>i.
                 [js_plus x0 (js_count_times i dx),
                  js_plus y0 (js_count_times j dy),
                  js_plus z0 (js_count_times k dz)])
               [0..<Suc nx]))
             [0..<Suc ny]))
           [0..<Suc nz]))"

definition cubeTetrahedra :: "nat \<Rightarrow> nat \<Rightarrow> nat \<Rightarrow> nat \<Rightarrow> nat \<Rightarrow> nat list" where
  "cubeTetrahedra nx ny i j k =
     (let n000 = getNodeIndex nx ny i j k;
          n100 = getNodeIndex nx ny (i + 1) j k;
          n010 = getNodeIndex nx ny i (j + 1) k;
          n110 = getNodeIndex nx ny (i + 1) (j + 1) k;
          n001 = getNodeIndex nx ny i j (k + 1);
          n101 = getNodeIndex nx ny (i + 1) j (k + 1);
          n011 = getNodeIndex nx ny i (j + 1) (k + 1);
          n111 = getNodeIndex nx ny (i + 1) (j + 1) (k + 1)
      in [n000, n100, n110, n101,
          n000, n110, n010, n011,
          n000, n101, n001, n011,
          n110, n101, n111, n011,
          n000, n110, n101, n011])"

definition gridTetrahedra :: "nat \<Rightarrow> nat \<Rightarrow> nat \<Rightarrow> nat list" where
  "gridTetrahedra nx ny nz =
     concat (map (\<lambda>k.
       concat (map (\<lambda>j.
         concat (map (\<lambda>i. cubeTetrahedra nx ny i j k) [0..<nx]))
       [0..<ny]))
     [0..<nz])"

text \<open>
  The ways a run leaves the embedding. \<open>RangeError\<close> is the exception that
  \<open>TypedArray.prototype.set\<close> throws for a source longer than the target.
  \<open>UndefinedRead\<close> marks a run that used an array element that is not there as a
  number: JavaScript continues with NaN, which a buffer of reals cannot hold, so the
  embedding stops there.
\<close>

datatype js_fault = RangeError | UndefinedRead

text \<open>
  \<open>createRegularMesh\<close> has no statement that throws: it computes the spacings, fills the
  two arrays in nested loops and stores them. The result type is a sum so that rejecting a
  resolution could be expressed; the function always returns a mesh.
\<close>

definition createRegularMesh ::
  "vec3 \<Rightarrow> vec3 \<Rightarrow> nat \<Rightarrow> nat \<Rightarrow> nat \<Rightarrow> js_fault + jsnum TetrahedralMesh" where
  "createRegularMesh dmin dmax nx ny nz =
     (let ns = gridNodes dmin dmax nx ny nz;
          ts = gridTetrahedra nx ny nz
      in Inr \<lparr> domainMin = dmin, domainMax = dmax,
               nodes = ns,
               nodeVelocities = replicate (length ns) (Fin 0),
               tetrahedra = ts,
               nodeCount = length ns div 3,
               tetCount = length ts div 4 \<rparr>)"

subsection \<open>Point location and barycentric coordinates\<close>

definition getTetrahedron :: "'n TetrahedralMesh \<Rightarrow> nat \<Rightarrow> nat option list" where
  \<comment> \<open>the four node indices of a tetrahedron; an entry read outside the buffer is \<open>undefined\<close>\<close>
  "getTetrahedron m index =
     (let i = index * 4
      in [rd (tetrahedra m) i, rd (tetrahedra m) (i + 1),
          rd (tetrahedra m) (i + 2), rd (tetrahedra m) (i + 3)])"

definition nodePosition :: "real list \<Rightarrow> nat option \<Rightarrow> vec3 option" where
  \<comment> \<open>\<open>[nodes[n * 3], nodes[n * 3 + 1], nodes[n * 3 + 2]]\<close>; \<open>None\<close> when a component is \<open>undefined\<close>\<close>
  "nodePosition ns n =
     do { k \<leftarrow> n;
          x \<leftarrow> rd ns (k * 3);
          y \<leftarrow> rd ns (k * 3 + 1);
          z \<leftarrow> rd ns (k * 3 + 2);
          Some (x, y, z) }"

fun tetrahedronVolume :: "vec3 \<Rightarrow> vec3 \<Rightarrow> vec3 \<Rightarrow> vec3 \<Rightarrow> real" where
  "tetrahedronVolume (a0, b0, c0) (a1, b1, c1) (a2, b2, c2) (a3, b3, c3) =
     (let v1x = a1 - a0; v1y = b1 - b0; v1z = c1 - c0;
          v2x = a2 - a0; v2y = b2 - b0; v2z = c2 - c0;
          v3x = a3 - a0; v3y = b3 - b0; v3z = c3 - c0;
          crossx = v2y * v3z - v2z * v3y;
          crossy = v2z * v3x - v2x * v3z;
          crossz = v2x * v3y - v2y * v3x
      in (v1x * crossx + v1y * crossy + v1z * crossz) / 6)"

definition tetPoints :: "real TetrahedralMesh \<Rightarrow> nat \<Rightarrow> (vec3 \<times> vec3 \<times> vec3 \<times> vec3) option" where
  \<comment> \<open>the positions \<open>p0 .. p3\<close> of the four nodes of a tetrahedron\<close>
  "tetPoints m tetIndex =
     (let tet = getTetrahedron m tetIndex
      in do { p0 \<leftarrow> nodePosition (nodes m) (tet ! 0);
              p1 \<leftarrow> nodePosition (nodes m) (tet ! 1);
              p2 \<leftarrow> nodePosition (nodes m) (tet ! 2);
              p3 \<leftarrow> nodePosition (nodes m) (tet ! 3);
              Some (p0, p1, p2, p3) })"

text \<open>
  \<open>computeBarycentricCoordinates\<close> returns four numbers. When a node index or a node
  component it reads is \<open>undefined\<close>, the volume is NaN (every component of every point
  enters the triple product), the degeneracy test \<open>Math.abs(volume) < 1e-10\<close> is false and
  all four quotients are NaN: that result is \<open>None\<close> here. The constants \<open>0.25\<close>
  and \<open>1e-10\<close> are written as the fractions \<open>1 / 4\<close> and \<open>1 / 10 ^ 10\<close>.
\<close>

definition computeBarycentricCoordinates ::
  "real TetrahedralMesh \<Rightarrow> nat \<Rightarrow> real \<Rightarrow> real \<Rightarrow> real \<Rightarrow> real list option" where
  "computeBarycentricCoordinates m tetIndex x y z =
     (case tetPoints m tetIndex of
        None \<Rightarrow> None
      | Some (p0, p1, p2, p3) \<Rightarrow>
          let volume = tetrahedronVolume p0 p1 p2 p3
          in if \<bar>volume\<bar> < 1 / 10 ^ 10 then Some [1 / 4, 1 / 4, 1 / 4, 1 / 4]
             else
               let p = (x, y, z);
                   v0 = tetrahedronVolume p p1 p2 p3;
                   v1 = tetrahedronVolume p0 p p2 p3;
                   v2 = tetrahedronVolume p0 p1 p p3;
                   v3 = tetrahedronVolume p0 p1 p2 p
               in Some [v0 / volume, v1 / volume, v2 / volume, v3 / volume])"

definition allNonNegative :: "real list option \<Rightarrow> bool" where
  \<comment> \<open>\<open>bary[0] >= 0 && bary[1] >= 0 && bary[2] >= 0 && bary[3] >= 0\<close>; false on NaN\<close>
  "allNonNegative bary =
     (case bary of
        None \<Rightarrow> False
      | Some b \<Rightarrow> 0 \<le> b ! 0 \<and> 0 \<le> b ! 1 \<and> 0 \<le> b ! 2 \<and> 0 \<le> b ! 3)"

function findFrom :: "real TetrahedralMesh \<Rightarrow> real \<Rightarrow> real \<Rightarrow> real \<Rightarrow> nat \<Rightarrow> int" where
  \<comment> \<open>the scan \<open>for (let t = ...; t < this.tetCount; t++)\<close>, from index \<open>t\<close> on\<close>
  "findFrom m x y z t =
     (if t < tetCount m
      then (if allNonNegative (computeBarycentricCoordinates m t x y z) then int t
            else findFrom m x y z (Suc t))
      else - 1)"
  by pat_completeness auto
termination
  by (relation "measure (\<lambda>(m, x, y, z, t). tetCount m - t)") auto

declare findFrom.simps [simp del]

definition findContainingTetrahedron :: "real TetrahedralMesh \<Rightarrow> real \<Rightarrow> real \<Rightarrow> real \<Rightarrow> int" where
  "findContainingTetrahedron m x y z = findFrom m x y z 0"

section \<open>ParticleSystem\<close>

text \<open>
  The fields of class \<open>ParticleSystem\<close>. \<open>count\<close> is a JavaScript number (a length
  divided by 3). \<open>console\<close> collects the messages of \<open>console.warn\<close>, oldest first.
\<close>

record ParticleSystem =
  maxParticles :: nat
  count :: real
  positions :: "real list"
  velocities :: "real list"
  console :: "string list"

definition newParticleSystem :: "nat \<Rightarrow> ParticleSystem" where
  \<comment> \<open>the constructor followed by \<open>initialize\<close>: zero-filled buffers of \<open>maxParticles * 3\<close> entries\<close>
  "newParticleSystem n =
     \<lparr> maxParticles = n, count = 0,
       positions = replicate (n * 3) 0,
       velocities = replicate (n * 3) 0,
       console = [] \<rparr>"

definition typedArraySet :: "real list \<Rightarrow> real list \<Rightarrow> js_fault + real list" where
  \<comment> \<open>\<open>target.set(source)\<close>: copies \<open>source\<close> over the start of \<open>target\<close>\<close>
  "typedArraySet target source =
     (if length target < length source then Inl RangeError
      else Inr (source @ drop (length source) target))"

definition setPositions :: "ParticleSystem \<Rightarrow> real list \<Rightarrow> js_fault + ParticleSystem" where
  "setPositions ps new =
     (let truncate = maxParticles ps * 3 < length new;
          log = (if truncate then console ps @ [''Too many particles, truncating''] else console ps);
          new' = (if truncate then take (maxParticles ps * 3) new else new)
      in case typedArraySet (positions ps) new' of
           Inl e \<Rightarrow> Inl e
         | Inr buf \<Rightarrow> Inr (ps\<lparr> positions := buf, count := real (length new') / 3, console := log \<rparr>))"

definition setVelocities :: "ParticleSystem \<Rightarrow> real list \<Rightarrow> js_fault + ParticleSystem" where
  "setVelocities ps new =
     (let truncate = maxParticles ps * 3 < length new;
          log = (if truncate then console ps @ [''Too many velocities, truncating''] else console ps);
          new' = (if truncate then take (maxParticles ps * 3) new else new)
      in case typedArraySet (velocities ps) new' of
           Inl e \<Rightarrow> Inl e
         | Inr buf \<Rightarrow> Inr (ps\<lparr> velocities := buf, console := log \<rparr>))"

section \<open>TetFlipSimulator\<close>

text \<open>
  The fields of class \<open>TetFlipSimulator\<close> after \<open>initialize\<close>. Its domain bounds are
  named \<open>simDomainMin\<close> and \<open>simDomainMax\<close> here, the names \<open>domainMin\<close> and
  \<open>domainMax\<close> being the mesh's.
\<close>

record TetFlipSimulator =
  timeStep :: real
  gravity :: real
  viscosity :: real
  simulationTime :: real
  simDomainMin :: vec3
  simDomainMax :: vec3
  mesh :: "real TetrahedralMesh"
  particles :: ParticleSystem
  flipRatio :: real

text \<open>
  The per-particle loops are all of the form
  \<open>for (let p = 0; p < particles.positions.length; p += 3)\<close>: \<open>slotOffsets\<close> lists the
  values of \<open>p\<close>. \<open>rd3\<close> reads the three entries of a slot. \<open>foldOpt\<close> runs a loop
  body that may read an absent entry.
\<close>

definition slotOffsets :: "real list \<Rightarrow> nat list" where
  "slotOffsets buf = map (\<lambda>k. 3 * k) [0..<(length buf + 2) div 3]"

definition rd3 :: "real list \<Rightarrow> nat \<Rightarrow> vec3 option" where
  "rd3 xs p = do { a \<leftarrow> rd xs p; b \<leftarrow> rd xs (p + 1); c \<leftarrow> rd xs (p + 2); Some (a, b, c) }"

fun foldOpt :: "('a \<Rightarrow> 's \<Rightarrow> 's option) \<Rightarrow> 'a list \<Rightarrow> 's \<Rightarrow> 's option" where
  "foldOpt f [] s = Some s"
| "foldOpt f (x # xs) s = (case f x s of None \<Rightarrow> None | Some s' \<Rightarrow> foldOpt f xs s')"

subsection \<open>particlesToMesh (P2G)\<close>

text \<open>
  \<open>meshNodes\<close> is \<open>this.mesh.getNodes()\<close>, the position buffer of the mesh itself and
  not a copy: every write to \<open>meshNodes\<close> is a write to \<open>mesh.nodes\<close>, and the point
  location inside the particle loop reads the buffer as written so far. The loop state is
  the pair of \<open>meshNodes\<close> and \<open>weights\<close>.
\<close>

fun scatter :: "vec3 \<Rightarrow> nat option \<times> real \<Rightarrow> real list \<times> real list \<Rightarrow> real list \<times> real list" where
  \<comment> \<open>the body of \<open>for (let i = 0; i < 4; i++)\<close> for \<open>tet[i]\<close> and \<open>bary[i]\<close>\<close>
  "scatter (vx, vy, vz) (Some n, w) (ns, ws) =
     (let nodeIdx = n * 3;
          ns1 = ns[nodeIdx := ns ! nodeIdx + w * vx];
          ns2 = ns1[nodeIdx + 1 := ns1 ! (nodeIdx + 1) + w * vy];
          ns3 = ns2[nodeIdx + 2 := ns2 ! (nodeIdx + 2) + w * vz]
      in (ns3, ws[n := ws ! n + w]))"
| "scatter v (None, w) (ns, ws) = (ns, ws)"

definition p2gParticle ::
  "ParticleSystem \<Rightarrow> real TetrahedralMesh \<Rightarrow> nat \<Rightarrow> real list \<times> real list \<Rightarrow> (real list \<times> real list) option" where
  "p2gParticle ps m p st =
     (case st of (ns, ws) \<Rightarrow>
        do { (px, py, pz) \<leftarrow> rd3 (positions ps) p;
             v \<leftarrow> rd3 (velocities ps) p;
             let cur = m\<lparr> nodes := ns \<rparr>;
                 tetIndex = findContainingTetrahedron cur px py pz
             in if 0 \<le> tetIndex
                then (let tet = getTetrahedron cur (nat tetIndex)
                      in case computeBarycentricCoordinates cur (nat tetIndex) px py pz of
                           None \<Rightarrow> None
                         | Some bary \<Rightarrow> Some (fold (scatter v) (zip tet bary) (ns, ws)))
                else Some (ns, ws) })"

definition normalizeNode :: "real list \<Rightarrow> nat \<Rightarrow> real list \<Rightarrow> real list" where
  \<comment> \<open>the body of the loop "Normalize by weights"; \<open>undefined > 0\<close> is false\<close>
  "normalizeNode ws i ns =
     (case rd ws i of
        None \<Rightarrow> ns
      | Some w \<Rightarrow>
          if 0 < w
          then (let ns1 = ns[i * 3 := ns ! (i * 3) / w];
                    ns2 = ns1[i * 3 + 1 := ns1 ! (i * 3 + 1) / w];
                    ns3 = ns2[i * 3 + 2 := ns2 ! (i * 3 + 2) / w]
                in ns3)
          else ns)"

definition particlesToMesh :: "TetFlipSimulator \<Rightarrow> js_fault + TetFlipSimulator" where
  "particlesToMesh s =
     (let m = mesh s;
          ps = particles s;
          meshNodes = map (\<lambda>_. 0) (nodes m);
          weights = replicate (length meshNodes div 3) 0
      in case foldOpt (p2gParticle ps m) (slotOffsets (positions ps)) (meshNodes, weights) of
           None \<Rightarrow> Inl UndefinedRead
         | Some (ns, ws) \<Rightarrow>
             let ns' = fold (normalizeNode ws) [0..<(length ns + 2) div 3] ns
             in Inr (s\<lparr> mesh := m\<lparr> nodes := ns', nodeVelocities := ns' \<rparr> \<rparr>))"

subsection \<open>meshToParticles (G2P)\<close>

fun interpolate :: "real list \<Rightarrow> nat option \<times> real \<Rightarrow> vec3 \<Rightarrow> vec3 option" where
  \<comment> \<open>the body of \<open>for (let i = 0; i < 4; i++)\<close>: \<open>vx_new += w * meshVelocitiesNew[nodeIdx + 0]\<close>, ...\<close>
  "interpolate vs (Some n, w) (ax, ay, az) =
     do { a \<leftarrow> rd vs (n * 3);
          b \<leftarrow> rd vs (n * 3 + 1);
          c \<leftarrow> rd vs (n * 3 + 2);
          Some (ax + w * a, ay + w * b, az + w * c) }"
| "interpolate vs (None, w) acc = None"

definition g2pParticle ::
  "ParticleSystem \<Rightarrow> real TetrahedralMesh \<Rightarrow> nat \<Rightarrow> real list \<Rightarrow> real list option" where
  "g2pParticle ps m p vel =
     do { (px, py, pz) \<leftarrow> rd3 (positions ps) p;
          let tetIndex = findContainingTetrahedron m px py pz
          in if 0 \<le> tetIndex
             then (let tet = getTetrahedron m (nat tetIndex)
                   in case computeBarycentricCoordinates m (nat tetIndex) px py pz of
                        None \<Rightarrow> None
                      | Some bary \<Rightarrow>
                          do { (vx_new, vy_new, vz_new) \<leftarrow>
                                 foldOpt (interpolate (nodeVelocities m)) (zip tet bary) (0, 0, 0);
                               Some (vel[p := vx_new, p + 1 := vy_new, p + 2 := vz_new]) })
             else Some vel }"

definition meshToParticles :: "TetFlipSimulator \<Rightarrow> js_fault + TetFlipSimulator" where
  "meshToParticles s =
     (let ps = particles s
      in case foldOpt (g2pParticle ps (mesh s)) (slotOffsets (positions ps)) (velocities ps) of
           None \<Rightarrow> Inl UndefinedRead
         | Some vel \<Rightarrow>
             (case setVelocities (ps\<lparr> velocities := vel \<rparr>) vel of
                Inl e \<Rightarrow> Inl e
              | Inr ps' \<Rightarrow> Inr (s\<lparr> particles := ps' \<rparr>)))"

subsection \<open>advectParticles\<close>

definition advectEntry :: "real \<Rightarrow> real list \<Rightarrow> nat \<Rightarrow> real list \<Rightarrow> real list option" where
  \<comment> \<open>\<open>positions[i] += velocities[i] * timeStep\<close>; outside \<open>positions\<close> the write is ignored\<close>
  "advectEntry dt vel i pos =
     (if i < length pos
      then (case rd vel i of None \<Rightarrow> None | Some v \<Rightarrow> Some (pos[i := pos ! i + v * dt]))
      else Some pos)"

definition advectParticle :: "real \<Rightarrow> real list \<Rightarrow> nat \<Rightarrow> real list \<Rightarrow> real list option" where
  "advectParticle dt vel p pos =
     do { pos1 \<leftarrow> advectEntry dt vel p pos;
          pos2 \<leftarrow> advectEntry dt vel (p + 1) pos1;
          advectEntry dt vel (p + 2) pos2 }"

definition advectParticles :: "TetFlipSimulator \<Rightarrow> js_fault + TetFlipSimulator" where
  "advectParticles s =
     (let ps = particles s
      in case foldOpt (advectParticle (timeStep s) (velocities ps)) (slotOffsets (positions ps))
                (positions ps) of
           None \<Rightarrow> Inl UndefinedRead
         | Some pos \<Rightarrow>
             (case setPositions (ps\<lparr> positions := pos \<rparr>) pos of
                Inl e \<Rightarrow> Inl e
              | Inr ps' \<Rightarrow> Inr (s\<lparr> particles := ps' \<rparr>)))"

subsection \<open>handleCollisions\<close>

definition restitution :: real where
  "restitution = 3 / 10"

definition collideAxis :: "real \<Rightarrow> real \<Rightarrow> nat \<Rightarrow> real list \<times> real list \<Rightarrow> real list \<times> real list" where
  \<comment> \<open>one of the three \<open>if ... else if ...\<close> blocks, for the buffer index \<open>i\<close> and the bounds of its axis;
      a comparison with \<open>undefined\<close> is false\<close>
  "collideAxis lo hi i st =
     (case st of (pos, vel) \<Rightarrow>
        (case rd pos i of
           None \<Rightarrow> (pos, vel)
         | Some x \<Rightarrow>
             if x < lo then (pos[i := lo], vel[i := \<bar>vel ! i\<bar> * restitution])
             else if hi < x then (pos[i := hi], vel[i := - \<bar>vel ! i\<bar> * restitution])
             else (pos, vel)))"

definition collideParticle :: "vec3 \<Rightarrow> vec3 \<Rightarrow> nat \<Rightarrow> real list \<times> real list \<Rightarrow> real list \<times> real list" where
  "collideParticle dmin dmax p st =
     (case (dmin, dmax) of ((x0, y0, z0), (x1, y1, z1)) \<Rightarrow>
        collideAxis z0 z1 (p + 2) (collideAxis y0 y1 (p + 1) (collideAxis x0 x1 p st)))"

definition handleCollisions :: "TetFlipSimulator \<Rightarrow> js_fault + TetFlipSimulator" where
  "handleCollisions s =
     (let ps = particles s
      in case fold (collideParticle (simDomainMin s) (simDomainMax s)) (slotOffsets (positions ps))
                (positions ps, velocities ps) of
           (pos, vel) \<Rightarrow>
             (case setPositions (ps\<lparr> positions := pos, velocities := vel \<rparr>) pos of
                Inl e \<Rightarrow> Inl e
              | Inr ps1 \<Rightarrow>
                  (case setVelocities ps1 vel of
                     Inl e \<Rightarrow> Inl e
                   | Inr ps2 \<Rightarrow> Inr (s\<lparr> particles := ps2 \<rparr>))))"

section \<open>PressureSolver\<close>

record PressureSolver =
  maxIterations :: nat
  tolerance :: real

definition newPressureSolver :: PressureSolver where
  \<comment> \<open>the constructor: \<open>maxIterations = 50\<close>, \<open>tolerance = 1e-4\<close>\<close>
  "newPressureSolver = \<lparr> maxIterations = 50, tolerance = 1 / 10 ^ 4 \<rparr>"

subsection \<open>approximateDivergence\<close>

definition jsOr :: "real \<Rightarrow> real \<Rightarrow> real" where
  \<comment> \<open>\<open>a || b\<close> on numbers: \<open>b\<close> when \<open>a\<close> is 0, else \<open>a\<close>\<close>
  "jsOr a b = (if a = 0 then b else a)"

text \<open>
  The arguments \<open>positions\<close> and \<open>velocities\<close> of \<open>approximateDivergence\<close> are the
  arrays of four triples that \<open>computeDivergence\<close> builds for a tetrahedron. \<open>axisSpacings\<close> are the three
  denominators \<open>dx, dy, dz\<close> of \<open>approximateDivergence\<close>.
\<close>

fun axisSpacings :: "vec3 \<times> vec3 \<times> vec3 \<times> vec3 \<Rightarrow> real \<times> real \<times> real" where
  "axisSpacings ((x0, y0, z0), (x1, y1, z1), (x2, y2, z2), (x3, y3, z3)) =
     (jsOr \<bar>x1 - x0\<bar> (1 / 10), jsOr \<bar>y2 - y0\<bar> (1 / 10), jsOr \<bar>z3 - z0\<bar> (1 / 10))"

fun approximateDivergence :: "vec3 \<times> vec3 \<times> vec3 \<times> vec3 \<Rightarrow> vec3 \<times> vec3 \<times> vec3 \<times> vec3 \<Rightarrow> real" where
  "approximateDivergence tetPositions ((ux0, uy0, uz0), (ux1, uy1, uz1), (ux2, uy2, uz2), (ux3, uy3, uz3)) =
     (case axisSpacings tetPositions of (dx, dy, dz) \<Rightarrow>
        let dvx = (ux1 - ux0) / dx;
            dvy = (uy2 - uy0) / dy;
            dvz = (uz3 - uz0) / dz
        in dvx + dvy + dvz)"

subsection \<open>getNeighbors\<close>

definition setAdd :: "'a list \<Rightarrow> 'a \<Rightarrow> 'a list" where
  \<comment> \<open>\<open>Set.prototype.add\<close>, the set kept as the list of its elements in insertion order\<close>
  "setAdd xs x = (if x \<in> set xs then xs else xs @ [x])"

definition addTetNeighbors :: "'n TetrahedralMesh \<Rightarrow> nat \<Rightarrow> nat \<Rightarrow> nat option list \<Rightarrow> nat option list" where
  \<comment> \<open>the body of the loop over the tetrahedra\<close>
  "addTetNeighbors m nodeIndex t neighbors =
     (let tet = getTetrahedron m t
      in if Some nodeIndex \<in> set tet
         then fold (\<lambda>n acc. if n \<noteq> Some nodeIndex then setAdd acc n else acc) tet neighbors
         else neighbors)"

definition getNeighbors :: "'n TetrahedralMesh \<Rightarrow> nat \<Rightarrow> nat option list" where
  "getNeighbors m nodeIndex = fold (addTetNeighbors m nodeIndex) [0..<tetCount m] []"

subsection \<open>conjugateGradient\<close>

definition scaleRhs :: "nat \<Rightarrow> real list \<Rightarrow> real \<Rightarrow> real list" where
  \<comment> \<open>\<open>rhs = new Float32Array(divergence)\<close>, then \<open>rhs[i] *= dt\<close> for \<open>i < nodeCount\<close>\<close>
  "scaleRhs n divergence dt = fold (\<lambda>i rhs. rhs[i := rhs ! i * dt]) [0..<n] divergence"

fun sumOld :: "real list \<Rightarrow> nat option list \<Rightarrow> real option" where
  \<comment> \<open>\<open>sum += pressureOld[n]\<close> over the neighbors, from \<open>sum = 0\<close>\<close>
  "sumOld pOld [] = Some 0"
| "sumOld pOld (n # ns) =
     do { k \<leftarrow> n; a \<leftarrow> rd pOld k; s \<leftarrow> sumOld pOld ns; Some (a + s) }"

definition jacobiNode ::
  "'n TetrahedralMesh \<Rightarrow> real list \<Rightarrow> real list \<Rightarrow> nat \<Rightarrow> real list \<Rightarrow> real list option" where
  \<comment> \<open>the body of the loop "Update each node"\<close>
  "jacobiNode m rhs pOld i pressure =
     (let neighbors = getNeighbors m i;
          neighborCount = length neighbors
      in do { sum \<leftarrow> sumOld pOld neighbors;
              if 0 < neighborCount
              then do { r \<leftarrow> rd rhs i; Some (pressure[i := (sum - r) / real neighborCount]) }
              else Some pressure })"

definition maxDiffStep :: "real list \<Rightarrow> real list \<Rightarrow> nat \<Rightarrow> real \<Rightarrow> real option" where
  \<comment> \<open>\<open>maxDiff = Math.max(maxDiff, Math.abs(pressure[i] - pressureOld[i]))\<close>\<close>
  "maxDiffStep pressure pOld i maxDiff =
     do { a \<leftarrow> rd pressure i; b \<leftarrow> rd pOld i; Some (max maxDiff \<bar>a - b\<bar>) }"

text \<open>
  The loop \<open>for (let iter = 0; iter < this.maxIterations; iter++)\<close> with its \<open>break\<close>.
  The source returns nothing and leaves the result in \<open>pressure\<close>; the embedding returns
  that buffer together with the number of passes the loop has made.
\<close>

function jacobiLoop ::
  "PressureSolver \<Rightarrow> 'n TetrahedralMesh \<Rightarrow> real list \<Rightarrow> real list \<Rightarrow> nat \<Rightarrow> real list
     \<Rightarrow> js_fault + real list \<times> nat" where
  "jacobiLoop solver m rhs pressureOld iter pressure =
     (if iter < maxIterations solver
      then (case typedArraySet pressureOld pressure of
              Inl e \<Rightarrow> Inl e
            | Inr pOld \<Rightarrow>
                (case foldOpt (jacobiNode m rhs pOld) [0..<nodeCount m] pressure of
                   None \<Rightarrow> Inl UndefinedRead
                 | Some pressure' \<Rightarrow>
                     (case foldOpt (maxDiffStep pressure' pOld) [0..<nodeCount m] 0 of
                        None \<Rightarrow> Inl UndefinedRead
                      | Some maxDiff \<Rightarrow>
                          if maxDiff < tolerance solver then Inr (pressure', Suc iter)
                          else jacobiLoop solver m rhs pOld (Suc iter) pressure')))
      else Inr (pressure, iter))"
  by pat_completeness auto
termination
  by (relation "measure (\<lambda>(solver, m, rhs, pressureOld, iter, pressure). maxIterations solver - iter)")
     auto

declare jacobiLoop.simps [simp del]

definition conjugateGradient ::
  "PressureSolver \<Rightarrow> 'n TetrahedralMesh \<Rightarrow> real list \<Rightarrow> real list \<Rightarrow> real
     \<Rightarrow> js_fault + real list \<times> nat" where
  "conjugateGradient solver m divergence pressure dt =
     (let n = nodeCount m;
          rhs = scaleRhs n divergence dt;
          pressureOld = replicate n 0
      in jacobiLoop solver m rhs pressureOld 0 pressure)"

section \<open>Auxiliary notions for the statements\<close>

text \<open>
  The degeneracy test of \<open>computeBarycentricCoordinates\<close>, as a predicate on a
  tetrahedron of the mesh whose four node positions can be read.
\<close>

definition isDegenerate :: "real TetrahedralMesh \<Rightarrow> nat \<Rightarrow> bool" where
  "isDegenerate m t =
     (case tetPoints m t of
        None \<Rightarrow> False
      | Some (p0, p1, p2, p3) \<Rightarrow> \<bar>tetrahedronVolume p0 p1 p2 p3\<bar> < 1 / 10 ^ 10)"

text \<open>The barycentric coordinates the code computes for a point given as a triple.\<close>

definition baryAt :: "real TetrahedralMesh \<Rightarrow> nat \<Rightarrow> vec3 \<Rightarrow> real list option" where
  "baryAt m t p = (case p of (x, y, z) \<Rightarrow> computeBarycentricCoordinates m t x y z)"

text \<open>
  The point \<open>w0 p0 + w1 p1 + w2 p2 + w3 p3\<close>: with non-negative weights that sum to 1,
  a point of the tetrahedron \<open>p0 p1 p2 p3\<close>.
\<close>

fun convexCombination :: "real list \<Rightarrow> vec3 \<Rightarrow> vec3 \<Rightarrow> vec3 \<Rightarrow> vec3 \<Rightarrow> vec3" where
  "convexCombination [w0, w1, w2, w3] (a0, b0, c0) (a1, b1, c1) (a2, b2, c2) (a3, b3, c3) =
     (w0 * a0 + w1 * a1 + w2 * a2 + w3 * a3,
      w0 * b0 + w1 * b1 + w2 * b2 + w3 * b3,
      w0 * c0 + w1 * c1 + w2 * c2 + w3 * c3)"
| "convexCombination ws p0 p1 p2 p3 = p0"

text \<open>The scalar triple product of the edge vectors: six times the signed volume.\<close>

fun triple :: "vec3 \<Rightarrow> vec3 \<Rightarrow> vec3 \<Rightarrow> vec3 \<Rightarrow> real" where
  "triple (a0, b0, c0) (a1, b1, c1) (a2, b2, c2) (a3, b3, c3) =
     (a1 - a0) * ((b2 - b0) * (c3 - c0) - (c2 - c0) * (b3 - b0))
   + (b1 - b0) * ((c2 - c0) * (a3 - a0) - (a2 - a0) * (c3 - c0))
   + (c1 - c0) * ((a2 - a0) * (b3 - b0) - (b2 - b0) * (a3 - a0))"

text \<open>
  The shape of the particle buffers that \<open>initialize\<close> allocates and that
  \<open>setPositions\<close> and \<open>setVelocities\<close> keep: \<open>maxParticles * 3\<close> entries each.
\<close>

definition particlesShaped :: "ParticleSystem \<Rightarrow> bool" where
  "particlesShaped ps \<longleftrightarrow>
     length (positions ps) = maxParticles ps * 3 \<and> length (velocities ps) = maxParticles ps * 3"

text \<open>
  Slot \<open>k\<close> of a flat buffer as a triple, a component of a triple, and the point
  location for a point given as a triple.
\<close>

definition slot :: "real list \<Rightarrow> nat \<Rightarrow> vec3" where
  "slot buf k = (buf ! (3 * k), buf ! (3 * k + 1), buf ! (3 * k + 2))"

fun component :: "nat \<Rightarrow> vec3 \<Rightarrow> real" where
  "component i (a, b, c) = (if i = 0 then a else if i = 1 then b else c)"

definition locate :: "real TetrahedralMesh \<Rightarrow> vec3 \<Rightarrow> int" where
  "locate m p = (case p of (x, y, z) \<Rightarrow> findContainingTetrahedron m x y z)"

text \<open>
  The barycentric interpolation of the velocities of the four nodes of tetrahedron \<open>t\<close>
  at the point \<open>p\<close>: \<open>w0 v0 + w1 v1 + w2 v2 + w3 v3\<close>, with the weights that
  \<open>computeBarycentricCoordinates\<close> returns.
\<close>

fun weighted :: "real \<Rightarrow> vec3 \<Rightarrow> vec3 \<Rightarrow> vec3" where
  "weighted w (a, b, c) (x, y, z) = (x + w * a, y + w * b, z + w * c)"

definition interpolatedVelocity :: "real TetrahedralMesh \<Rightarrow> nat \<Rightarrow> vec3 \<Rightarrow> vec3" where
  "interpolatedVelocity m t p =
     (case (getTetrahedron m t, baryAt m t p) of
        ([Some n0, Some n1, Some n2, Some n3], Some [w0, w1, w2, w3]) \<Rightarrow>
          weighted w3 (slot (nodeVelocities m) n3)
            (weighted w2 (slot (nodeVelocities m) n2)
              (weighted w1 (slot (nodeVelocities m) n1)
                (weighted w0 (slot (nodeVelocities m) n0) (0, 0, 0))))
      | _ \<Rightarrow> (0, 0, 0))"

text \<open>
  The invariant of the mesh buffers: the tetrahedra buffer holds four entries for each of
  the \<open>tetCount\<close> tetrahedra, and every entry is a node index below \<open>nodeCount\<close>.
\<close>

definition meshIndicesValid :: "'n TetrahedralMesh \<Rightarrow> bool" where
  "meshIndicesValid m \<longleftrightarrow>
     length (tetrahedra m) = tetCount m * 4 \<and> (\<forall>n \<in> set (tetrahedra m). n < nodeCount m)"

text \<open>
  One pass of Jacobi relaxation as the specification words it: every node with a neighbor
  gets \<open>(sum of the neighbors' old pressures - rhs) / neighborCount\<close>, computed from the
  old pressures only, and a node without neighbors keeps its pressure. \<open>maxChange\<close> is
  the maximum absolute per-node change between two pressure buffers.
\<close>

definition neighborNodes :: "'n TetrahedralMesh \<Rightarrow> nat \<Rightarrow> nat list" where
  "neighborNodes m i = map the (getNeighbors m i)"

definition jacobiUpdate :: "'n TetrahedralMesh \<Rightarrow> real list \<Rightarrow> real list \<Rightarrow> nat \<Rightarrow> real" where
  "jacobiUpdate m rhs pOld i =
     (if neighborNodes m i = [] then pOld ! i
      else ((\<Sum>n \<leftarrow> neighborNodes m i. pOld ! n) - rhs ! i) / real (length (neighborNodes m i)))"

definition jacobiPass :: "'n TetrahedralMesh \<Rightarrow> real list \<Rightarrow> real list \<Rightarrow> real list" where
  "jacobiPass m rhs pOld = map (jacobiUpdate m rhs pOld) [0..<nodeCount m]"

definition maxChange :: "real list \<Rightarrow> real list \<Rightarrow> real" where
  "maxChange p q = Max (insert 0 ((\<lambda>i. \<bar>p ! i - q ! i\<bar>) ` {0..<length q}))"

text \<open>
  What a collision pass does to one buffer entry with position \<open>x\<close> and velocity \<open>v\<close>,
  for the bounds \<open>lo\<close> and \<open>hi\<close> of the entry's axis.
\<close>

definition collidedPosition :: "real \<Rightarrow> real \<Rightarrow> real \<Rightarrow> real" where
  "collidedPosition lo hi x = (if x < lo then lo else if hi < x then hi else x)"

definition collidedVelocity :: "real \<Rightarrow> real \<Rightarrow> real \<Rightarrow> real \<Rightarrow> real" where
  "collidedVelocity lo hi x v =
     (if x < lo then \<bar>v\<bar> * restitution else if hi < x then - \<bar>v\<bar> * restitution else v)"

text \<open>
  The weight accumulator after the weights \<open>bary\<close> have been added at the nodes \<open>ns\<close>,
  one after the other.
\<close>

fun addWeights :: "nat list \<Rightarrow> real list \<Rightarrow> real list \<Rightarrow> real list" where
  "addWeights (n # ns) (w # bary) ws = addWeights ns bary (ws[n := ws ! n + w])"
| "addWeights ns bary ws = ws"

text \<open>
  The sum of the first \<open>j\<close> slots of a flat buffer, component by component; the mean of
  the velocity slots of a particle set over all \<open>maxParticles\<close> slots of its capacity,
  live or not; and the node buffer that holds a vector \<open>v\<close> at every node of
  tetrahedron 0 and \<open>(0, 0, 0)\<close> at every other node.
\<close>

definition slotSum :: "real list \<Rightarrow> nat \<Rightarrow> vec3" where
  "slotSum buf j =
     (\<Sum>k\<leftarrow>[0..<j]. buf ! (3 * k), \<Sum>k\<leftarrow>[0..<j]. buf ! (3 * k + 1),
      \<Sum>k\<leftarrow>[0..<j]. buf ! (3 * k + 2))"

definition capacityMean :: "ParticleSystem \<Rightarrow> vec3" where
  "capacityMean ps =
     (case slotSum (velocities ps) (maxParticles ps) of
        (a, b, c) \<Rightarrow>
          (a / real (maxParticles ps), b / real (maxParticles ps), c / real (maxParticles ps)))"

definition firstTetrahedronBuffer :: "real TetrahedralMesh \<Rightarrow> vec3 \<Rightarrow> real list" where
  "firstTetrahedronBuffer m v =
     map (\<lambda>i. if Some (i div 3) \<in> set (getTetrahedron m 0) then component (i mod 3) v else 0)
       [0..<length (nodes m)]"

section \<open>Concrete states\<close>

text \<open>
  A mesh of one tetrahedron with vertices \<open>(0,0,0), (1,0,0), (0,1,0), (0,0,1)\<close>, and
  a mesh of two tetrahedra over the same four nodes, the first of them degenerate (it
  repeats node 0).
\<close>

definition unitTet :: "real TetrahedralMesh" where
  "unitTet = \<lparr> domainMin = (0, 0, 0), domainMax = (1, 1, 1),
               nodes = [0, 0, 0,  1, 0, 0,  0, 1, 0,  0, 0, 1],
               nodeVelocities = [0, 0, 0,  0, 0, 0,  0, 0, 0,  0, 0, 0],
               tetrahedra = [0, 1, 2, 3],
               nodeCount = 4, tetCount = 1 \<rparr>"

definition twoTets :: "real TetrahedralMesh" where
  "twoTets = \<lparr> domainMin = (0, 0, 0), domainMax = (1, 1, 1),
               nodes = [0, 0, 0,  1, 0, 0,  0, 1, 0,  0, 0, 1],
               nodeVelocities = [0, 0, 0,  0, 0, 0,  0, 0, 0,  0, 0, 0],
               tetrahedra = [0, 0, 1, 2,  0, 1, 2, 3],
               nodeCount = 4, tetCount = 2 \<rparr>"

text \<open>
  A simulator state on the one-tetrahedron mesh with node velocities
  \<open>(1,0,0), (0,2,0), (0,0,4), (8,8,8)\<close> and two particles: one at
  \<open>(1/4, 1/4, 1/4)\<close> inside the tetrahedron, one at \<open>(2, 2, 2)\<close> outside it.
\<close>

definition flowTet :: "real TetrahedralMesh" where
  "flowTet = unitTet\<lparr> nodeVelocities := [1, 0, 0,  0, 2, 0,  0, 0, 4,  8, 8, 8] \<rparr>"

definition g2pSim :: TetFlipSimulator where
  "g2pSim = \<lparr> timeStep = 2 / 125, gravity = - 49 / 5, viscosity = 1 / 1000, simulationTime = 0,
       simDomainMin = (- 1, - 1, - 1), simDomainMax = (1, 1, 1),
       mesh = flowTet,
       particles = \<lparr> maxParticles = 2, count = 2,
                     positions = [1 / 4, 1 / 4, 1 / 4,  2, 2, 2],
                     velocities = [9, 9, 9,  7, 7, 7],
                     console = [] \<rparr>,
       flipRatio = 19 / 20 \<rparr>"

text \<open>
  The mesh that \<open>createRegularMesh(1, 1, 1)\<close> builds over \<open>[-1, 1]\<^sup>3\<close>, eight nodes and
  five tetrahedra, and a simulator state on it with one particle of velocity \<open>(1, 0, 0)\<close>.
\<close>

definition cubeMesh :: "real TetrahedralMesh" where
  "cubeMesh = \<lparr> domainMin = (- 1, - 1, - 1), domainMax = (1, 1, 1),
       nodes = [- 1, - 1, - 1,   1, - 1, - 1,   - 1, 1, - 1,   1, 1, - 1,
                - 1, - 1, 1,     1, - 1, 1,     - 1, 1, 1,     1, 1, 1],
       nodeVelocities = [0, 0, 0,  0, 0, 0,  0, 0, 0,  0, 0, 0,
                         0, 0, 0,  0, 0, 0,  0, 0, 0,  0, 0, 0],
       tetrahedra = [0, 1, 3, 5,  0, 3, 2, 6,  0, 5, 4, 6,  3, 5, 7, 6,  0, 3, 5, 6],
       nodeCount = 8, tetCount = 5 \<rparr>"

definition cubeSim :: TetFlipSimulator where
  "cubeSim = \<lparr> timeStep = 2 / 125, gravity = - 49 / 5, viscosity = 1 / 1000, simulationTime = 0,
       simDomainMin = (- 1, - 1, - 1), simDomainMax = (1, 1, 1),
       mesh = cubeMesh,
       particles = \<lparr> maxParticles = 1, count = 1,
                     positions = [1 / 2, - 1 / 2, - 1 / 4],
                     velocities = [1, 0, 0],
                     console = [] \<rparr>,
       flipRatio = 19 / 20 \<rparr>"

text \<open>
  A simulator state on the same mesh with a particle set of capacity 3 that holds one live
  particle, at \<open>(1/2, -1/2, -1/4)\<close> with velocity \<open>(3, 0, 0)\<close>; the other two slots
  are as \<open>initialize\<close> leaves them, all zero. \<open>denseSim\<close> is the same state with a
  particle set of capacity 1, so without the inactive slots.
\<close>

definition sparseParticles :: ParticleSystem where
  "sparseParticles = \<lparr> maxParticles = 3, count = 1,
       positions = [1 / 2, - 1 / 2, - 1 / 4,  0, 0, 0,  0, 0, 0],
       velocities = [3, 0, 0,  0, 0, 0,  0, 0, 0],
       console = [] \<rparr>"

definition sparseSim :: TetFlipSimulator where
  "sparseSim = \<lparr> timeStep = 2 / 125, gravity = - 49 / 5, viscosity = 1 / 1000, simulationTime = 0,
       simDomainMin = (- 1, - 1, - 1), simDomainMax = (1, 1, 1),
       mesh = cubeMesh, particles = sparseParticles, flipRatio = 19 / 20 \<rparr>"

definition denseSim :: TetFlipSimulator where
  "denseSim = sparseSim\<lparr> particles := \<lparr> maxParticles = 1, count = 1,
       positions = [1 / 2, - 1 / 2, - 1 / 4], velocities = [3, 0, 0], console = [] \<rparr> \<rparr>"

section \<open>Properties of mesh construction\<close>

lemma length_concat_const:
  "(\<And>x. x \<in> set xs \<Longrightarrow> length (f x) = c) \<Longrightarrow> length (concat (map f xs)) = length xs * c"
  by (induction xs) auto

lemma length_gridNodes:
  "length (gridNodes dmin dmax nx ny nz) = 3 * ((nx + 1) * (ny + 1) * (nz + 1))"
  by (cases dmin; cases dmax) (simp add: gridNodes_def Let_def length_concat_const [where c = 3]
      length_concat_const [where c = "Suc nx * 3"]
      length_concat_const [where c = "Suc ny * (Suc nx * 3)"] algebra_simps del: upt_Suc)

lemma length_cubeTetrahedra: "length (cubeTetrahedra nx ny i j k) = 20"
  by (simp add: cubeTetrahedra_def Let_def)

lemma length_gridTetrahedra:
  "length (gridTetrahedra nx ny nz) = 4 * (5 * nx * ny * nz)"
  by (simp add: gridTetrahedra_def length_cubeTetrahedra length_concat_const [where c = 20]
      length_concat_const [where c = "nx * 20"]
      length_concat_const [where c = "ny * (nx * 20)"])

text \<open>
  Claim C5. For every resolution with \<open>nx, ny, nz \<ge> 1\<close>, \<open>createRegularMesh\<close> returns a
  mesh with exactly \<open>(nx+1)(ny+1)(nz+1)\<close> nodes (three buffer entries each) and exactly
  \<open>5 nx ny nz\<close> tetrahedra (four buffer entries each), and the velocity buffer holds one
  zero for every entry of the node buffer.
\<close>

theorem createRegularMesh_counts:
  assumes "1 \<le> nx" and "1 \<le> ny" and "1 \<le> nz"
  shows "\<exists>m. createRegularMesh dmin dmax nx ny nz = Inr m
           \<and> nodeCount m = (nx + 1) * (ny + 1) * (nz + 1)
           \<and> length (nodes m) = 3 * nodeCount m
           \<and> tetCount m = 5 * nx * ny * nz
           \<and> length (tetrahedra m) = 4 * tetCount m
           \<and> nodeVelocities m = replicate (3 * nodeCount m) (Fin 0)"
  by (simp add: createRegularMesh_def Let_def length_gridNodes length_gridTetrahedra)

text \<open>The resolution \<open>(8, 8, 8)\<close> of \<open>initialize\<close>: 729 nodes and 2560 tetrahedra.\<close>

theorem createRegularMesh_counts_witness:
  "\<exists>m. createRegularMesh (- 1, - 1, - 1) (1, 1, 1) 8 8 8 = Inr m
           \<and> nodeCount m = 729
           \<and> length (nodes m) = 3 * 729
           \<and> tetCount m = 2560
           \<and> length (tetrahedra m) = 4 * 2560
           \<and> nodeVelocities m = replicate (3 * 729) (Fin 0)"
  using createRegularMesh_counts [of 8 8 8 "(- 1, - 1, - 1)" "(1, 1, 1)"] by auto

text \<open>
  Claim C4 says that a resolution with zero cells is rejected by the constructor. The code
  has no check of the resolution: with \<open>nx = 0\<close> the spacing \<open>dx\<close> is infinite, the only
  loop index is \<open>i = 0\<close>, each \<open>x\<close> coordinate is \<open>0 * Infinity = NaN\<close>, and a mesh
  of four nodes and no tetrahedron is returned.
\<close>

theorem createRegularMesh_zero_cells_counterexample:
  "createRegularMesh (- 1, - 1, - 1) (1, 1, 1) 0 1 1 =
     Inr \<lparr> domainMin = (- 1, - 1, - 1), domainMax = (1, 1, 1),
           nodes = [NaN, Fin (- 1), Fin (- 1), NaN, Fin 1, Fin (- 1),
                    NaN, Fin (- 1), Fin 1, NaN, Fin 1, Fin 1],
           nodeVelocities = [Fin 0, Fin 0, Fin 0, Fin 0, Fin 0, Fin 0,
                             Fin 0, Fin 0, Fin 0, Fin 0, Fin 0, Fin 0],
           tetrahedra = [], nodeCount = 4, tetCount = 0 \<rparr>"
  by (simp add: createRegularMesh_def gridNodes_def gridTetrahedra_def Let_def
      js_div_count_def js_count_times_def js_plus_def upt_rec)

text \<open>
  Claim C4, amended. Mesh construction does not validate the resolution and never fails:
  for a resolution with a zero component it returns a mesh with
  \<open>(nx+1)(ny+1)(nz+1)\<close> nodes and no tetrahedron.
\<close>

theorem createRegularMesh_never_rejects:
  assumes "nx = 0 \<or> ny = 0 \<or> nz = 0"
  shows "\<exists>m. createRegularMesh dmin dmax nx ny nz = Inr m
           \<and> nodeCount m = (nx + 1) * (ny + 1) * (nz + 1)
           \<and> length (nodes m) = 3 * nodeCount m
           \<and> tetCount m = 0 \<and> tetrahedra m = []"
  using assms length_gridTetrahedra [of nx ny nz]
  by (auto simp add: createRegularMesh_def Let_def length_gridNodes)

theorem createRegularMesh_never_rejects_witness:
  "\<exists>m. createRegularMesh (- 1, - 1, - 1) (1, 1, 1) 0 8 8 = Inr m
           \<and> nodeCount m = 81 \<and> length (nodes m) = 243
           \<and> tetCount m = 0 \<and> tetrahedra m = []"
  using createRegularMesh_never_rejects [of 0 8 8 "(- 1, - 1, - 1)" "(1, 1, 1)"] by auto

section \<open>Barycentric coordinates\<close>

lemma volume_triple: "tetrahedronVolume p0 p1 p2 p3 = triple p0 p1 p2 p3 / 6"
  by (cases p0; cases p1; cases p2; cases p3) (simp add: Let_def)

lemma triple_sum:
  "triple p p1 p2 p3 + triple p0 p p2 p3 + triple p0 p1 p p3 + triple p0 p1 p2 p
   = triple p0 p1 p2 p3"
proof -
  obtain a b c where p: "p = (a, b, c)" by (cases p)
  obtain a0 b0 c0 where p0: "p0 = (a0, b0, c0)" by (cases p0)
  obtain a1 b1 c1 where p1: "p1 = (a1, b1, c1)" by (cases p1)
  obtain a2 b2 c2 where p2: "p2 = (a2, b2, c2)" by (cases p2)
  obtain a3 b3 c3 where p3: "p3 = (a3, b3, c3)" by (cases p3)
  show ?thesis unfolding p p0 p1 p2 p3 triple.simps by algebra
qed

lemma triple_repeat:
  "triple p0 p0 p2 p3 = 0" "triple p0 p1 p0 p3 = 0" "triple p0 p1 p2 p0 = 0"
  "triple p0 p1 p1 p3 = 0" "triple p0 p1 p2 p1 = 0" "triple p0 p1 p2 p2 = 0"
proof -
  obtain a0 b0 c0 where p0: "p0 = (a0, b0, c0)" by (cases p0)
  obtain a1 b1 c1 where p1: "p1 = (a1, b1, c1)" by (cases p1)
  obtain a2 b2 c2 where p2: "p2 = (a2, b2, c2)" by (cases p2)
  obtain a3 b3 c3 where p3: "p3 = (a3, b3, c3)" by (cases p3)
  show "triple p0 p0 p2 p3 = 0" unfolding p0 p1 p2 p3 triple.simps by algebra
  show "triple p0 p1 p0 p3 = 0" unfolding p0 p1 p2 p3 triple.simps by algebra
  show "triple p0 p1 p2 p0 = 0" unfolding p0 p1 p2 p3 triple.simps by algebra
  show "triple p0 p1 p1 p3 = 0" unfolding p0 p1 p2 p3 triple.simps by algebra
  show "triple p0 p1 p2 p1 = 0" unfolding p0 p1 p2 p3 triple.simps by algebra
  show "triple p0 p1 p2 p2 = 0" unfolding p0 p1 p2 p3 triple.simps by algebra
qed

lemma triple_convex:
  assumes "w0 + w1 + w2 + w3 = 1"
  shows "triple (convexCombination [w0, w1, w2, w3] p0 p1 p2 p3) p1 p2 p3 = w0 * triple p0 p1 p2 p3"
    and "triple p0 (convexCombination [w0, w1, w2, w3] p0 p1 p2 p3) p2 p3 = w1 * triple p0 p1 p2 p3"
    and "triple p0 p1 (convexCombination [w0, w1, w2, w3] p0 p1 p2 p3) p3 = w2 * triple p0 p1 p2 p3"
    and "triple p0 p1 p2 (convexCombination [w0, w1, w2, w3] p0 p1 p2 p3) = w3 * triple p0 p1 p2 p3"
proof -
  obtain a0 b0 c0 where p0: "p0 = (a0, b0, c0)" by (cases p0)
  obtain a1 b1 c1 where p1: "p1 = (a1, b1, c1)" by (cases p1)
  obtain a2 b2 c2 where p2: "p2 = (a2, b2, c2)" by (cases p2)
  obtain a3 b3 c3 where p3: "p3 = (a3, b3, c3)" by (cases p3)
  have w: "w0 = 1 - w1 - w2 - w3" using assms by simp
  show "triple (convexCombination [w0, w1, w2, w3] p0 p1 p2 p3) p1 p2 p3 = w0 * triple p0 p1 p2 p3"
    unfolding w p0 p1 p2 p3 convexCombination.simps triple.simps by algebra
  show "triple p0 (convexCombination [w0, w1, w2, w3] p0 p1 p2 p3) p2 p3 = w1 * triple p0 p1 p2 p3"
    unfolding w p0 p1 p2 p3 convexCombination.simps triple.simps by algebra
  show "triple p0 p1 (convexCombination [w0, w1, w2, w3] p0 p1 p2 p3) p3 = w2 * triple p0 p1 p2 p3"
    unfolding w p0 p1 p2 p3 convexCombination.simps triple.simps by algebra
  show "triple p0 p1 p2 (convexCombination [w0, w1, w2, w3] p0 p1 p2 p3) = w3 * triple p0 p1 p2 p3"
    unfolding w p0 p1 p2 p3 convexCombination.simps triple.simps by algebra
qed

lemma bary_nondegenerate:
  assumes "tetPoints m t = Some (p0, p1, p2, p3)"
    and "\<not> \<bar>tetrahedronVolume p0 p1 p2 p3\<bar> < 1 / 10 ^ 10"
  shows "baryAt m t p =
     Some [triple p p1 p2 p3 / triple p0 p1 p2 p3, triple p0 p p2 p3 / triple p0 p1 p2 p3,
           triple p0 p1 p p3 / triple p0 p1 p2 p3, triple p0 p1 p2 p / triple p0 p1 p2 p3]"
  using assms
  by (cases p) (simp add: baryAt_def computeBarycentricCoordinates_def Let_def volume_triple)

lemma triple_nonzero:
  assumes "\<not> \<bar>tetrahedronVolume p0 p1 p2 p3\<bar> < 1 / 10 ^ 10"
  shows "triple p0 p1 p2 p3 \<noteq> 0"
  using assms by (auto simp add: volume_triple)

text \<open>
  Claim C8. For a tetrahedron whose four node positions \<open>p0 .. p3\<close> can be read and which
  is not degenerate (\<open>\<bar>volume\<bar> \<ge> 1e-10\<close>): the coordinates computed for each of its
  own vertices are the one-hot vector of that vertex; for every query point the four
  computed coordinates sum to 1, and when all four are non-negative (the containment test
  of the code) each is at most 1; and for a point that is a convex combination of the
  vertices the computed coordinates are the weights of the combination, so they lie in
  \<open>[0, 1]\<close>. Numbers are exact reals.
\<close>

theorem barycentric_coordinates:
  assumes pts: "tetPoints m t = Some (p0, p1, p2, p3)"
    and nondeg: "\<not> \<bar>tetrahedronVolume p0 p1 p2 p3\<bar> < 1 / 10 ^ 10"
  shows "baryAt m t p0 = Some [1, 0, 0, 0] \<and> baryAt m t p1 = Some [0, 1, 0, 0]
       \<and> baryAt m t p2 = Some [0, 0, 1, 0] \<and> baryAt m t p3 = Some [0, 0, 0, 1]
       \<and> (\<forall>x y z. \<exists>b0 b1 b2 b3.
             computeBarycentricCoordinates m t x y z = Some [b0, b1, b2, b3]
             \<and> b0 + b1 + b2 + b3 = 1
             \<and> (allNonNegative (Some [b0, b1, b2, b3]) \<longrightarrow>
                  b0 \<le> 1 \<and> b1 \<le> 1 \<and> b2 \<le> 1 \<and> b3 \<le> 1))
       \<and> (\<forall>w0 w1 w2 w3.
             0 \<le> w0 \<and> 0 \<le> w1 \<and> 0 \<le> w2 \<and> 0 \<le> w3 \<and> w0 + w1 + w2 + w3 = 1 \<longrightarrow>
             baryAt m t (convexCombination [w0, w1, w2, w3] p0 p1 p2 p3) = Some [w0, w1, w2, w3]
             \<and> w0 \<le> 1 \<and> w1 \<le> 1 \<and> w2 \<le> 1 \<and> w3 \<le> 1)"
proof -
  note nz = triple_nonzero [OF nondeg]
  note b = bary_nondegenerate [OF pts nondeg]
  have v0: "baryAt m t p0 = Some [1, 0, 0, 0]"
    using nz by (simp add: b triple_repeat)
  have v1: "baryAt m t p1 = Some [0, 1, 0, 0]"
    using nz by (simp add: b triple_repeat)
  have v2: "baryAt m t p2 = Some [0, 0, 1, 0]"
    using nz by (simp add: b triple_repeat)
  have v3: "baryAt m t p3 = Some [0, 0, 0, 1]"
    using nz by (simp add: b triple_repeat)
  have total: "\<exists>b0 b1 b2 b3.
             computeBarycentricCoordinates m t x y z = Some [b0, b1, b2, b3]
             \<and> b0 + b1 + b2 + b3 = 1
             \<and> (allNonNegative (Some [b0, b1, b2, b3]) \<longrightarrow>
                  b0 \<le> 1 \<and> b1 \<le> 1 \<and> b2 \<le> 1 \<and> b3 \<le> 1)" for x y z
  proof -
    let ?p = "(x, y, z)"
    let ?d = "triple p0 p1 p2 p3"
    let ?b0 = "triple ?p p1 p2 p3 / ?d" and ?b1 = "triple p0 ?p p2 p3 / ?d"
    let ?b2 = "triple p0 p1 ?p p3 / ?d" and ?b3 = "triple p0 p1 p2 ?p / ?d"
    have eq: "computeBarycentricCoordinates m t x y z = Some [?b0, ?b1, ?b2, ?b3]"
      using b [of ?p] by (simp add: baryAt_def)
    have "?b0 + ?b1 + ?b2 + ?b3
            = (triple ?p p1 p2 p3 + triple p0 ?p p2 p3 + triple p0 p1 ?p p3 + triple p0 p1 p2 ?p) / ?d"
      by (simp add: add_divide_distrib)
    also have "\<dots> = 1" using nz by (simp add: triple_sum)
    finally have sum1: "?b0 + ?b1 + ?b2 + ?b3 = 1" .
    have "allNonNegative (Some [?b0, ?b1, ?b2, ?b3]) \<longrightarrow>
            ?b0 \<le> 1 \<and> ?b1 \<le> 1 \<and> ?b2 \<le> 1 \<and> ?b3 \<le> 1"
      using sum1 unfolding allNonNegative_def by simp
    with eq sum1 show ?thesis by blast
  qed
  have convex: "baryAt m t (convexCombination [w0, w1, w2, w3] p0 p1 p2 p3) = Some [w0, w1, w2, w3]
             \<and> w0 \<le> 1 \<and> w1 \<le> 1 \<and> w2 \<le> 1 \<and> w3 \<le> 1"
    if w: "0 \<le> w0 \<and> 0 \<le> w1 \<and> 0 \<le> w2 \<and> 0 \<le> w3 \<and> w0 + w1 + w2 + w3 = 1" for w0 w1 w2 w3
  proof -
    from w have s: "w0 + w1 + w2 + w3 = 1" by simp
    have "baryAt m t (convexCombination [w0, w1, w2, w3] p0 p1 p2 p3) = Some [w0, w1, w2, w3]"
      using nz by (simp add: b triple_convex [OF s])
    moreover from w have "w0 \<le> 1 \<and> w1 \<le> 1 \<and> w2 \<le> 1 \<and> w3 \<le> 1" by linarith
    ultimately show ?thesis by simp
  qed
  from v0 v1 v2 v3 total convex show ?thesis by blast
qed

lemma unitTet_fields:
  "tetCount unitTet = 1"
  "nodes unitTet = [0, 0, 0,  1, 0, 0,  0, 1, 0,  0, 0, 1]"
  "tetrahedra unitTet = [0, 1, 2, 3]"
  by (simp_all add: unitTet_def)

lemma unitTet_points:
  "tetPoints unitTet 0 = Some ((0, 0, 0), (1, 0, 0), (0, 1, 0), (0, 0, 1))"
  by (simp add: tetPoints_def getTetrahedron_def nodePosition_def rd_def unitTet_fields)

lemma twoTets_fields:
  "tetCount twoTets = 2"
  "nodes twoTets = [0, 0, 0,  1, 0, 0,  0, 1, 0,  0, 0, 1]"
  "tetrahedra twoTets = [0, 0, 1, 2,  0, 1, 2, 3]"
  by (simp_all add: twoTets_def)

lemma twoTets_points:
  "tetPoints twoTets 0 = Some ((0, 0, 0), (0, 0, 0), (1, 0, 0), (0, 1, 0))"
  "tetPoints twoTets (Suc 0) = Some ((0, 0, 0), (1, 0, 0), (0, 1, 0), (0, 0, 1))"
  by (simp_all add: tetPoints_def getTetrahedron_def nodePosition_def rd_def twoTets_fields)

theorem barycentric_coordinates_witness:
  "baryAt twoTets 1 (0, 0, 0) = Some [1, 0, 0, 0] \<and> baryAt twoTets 1 (1, 0, 0) = Some [0, 1, 0, 0]
   \<and> baryAt twoTets 1 (0, 1, 0) = Some [0, 0, 1, 0] \<and> baryAt twoTets 1 (0, 0, 1) = Some [0, 0, 0, 1]
   \<and> baryAt twoTets 1 (1 / 8, 1 / 4, 1 / 2) = Some [1 / 8, 1 / 8, 1 / 4, 1 / 2]"
proof -
  have nondeg: "\<not> \<bar>tetrahedronVolume (0, 0, 0) (1, 0, 0) (0, 1, 0) (0, 0, 1)\<bar> < 1 / 10 ^ 10"
    by simp
  have w: "(0::real) \<le> 1 / 8 \<and> (0::real) \<le> 1 / 8 \<and> (0::real) \<le> 1 / 4 \<and> (0::real) \<le> 1 / 2
            \<and> (1::real) / 8 + 1 / 8 + 1 / 4 + 1 / 2 = 1" by simp
  have c: "convexCombination [1 / 8, 1 / 8, 1 / 4, 1 / 2] (0, 0, 0) (1, 0, 0) (0, 1, 0) (0, 0, 1)
             = (1 / 8, 1 / 4, 1 / 2)" by simp
  note all = barycentric_coordinates [OF twoTets_points(2) nondeg]
  from all have cv: "\<forall>w0 w1 w2 w3.
             0 \<le> w0 \<and> 0 \<le> w1 \<and> 0 \<le> w2 \<and> 0 \<le> w3 \<and> w0 + w1 + w2 + w3 = 1 \<longrightarrow>
             baryAt twoTets (Suc 0)
               (convexCombination [w0, w1, w2, w3] (0, 0, 0) (1, 0, 0) (0, 1, 0) (0, 0, 1))
               = Some [w0, w1, w2, w3]
             \<and> w0 \<le> 1 \<and> w1 \<le> 1 \<and> w2 \<le> 1 \<and> w3 \<le> 1"
    by (elim conjE) assumption
  from cv [rule_format, OF w] have "baryAt twoTets (Suc 0) (1 / 8, 1 / 4, 1 / 2)
      = Some [1 / 8, 1 / 8, 1 / 4, 1 / 2]"
    unfolding c by (elim conjE) assumption
  with all show ?thesis by simp
qed

section \<open>Point location\<close>

lemma findFrom_cases:
  "(findFrom m x y z s = - 1 \<and>
      (\<forall>t. s \<le> t \<and> t < tetCount m \<longrightarrow> \<not> allNonNegative (computeBarycentricCoordinates m t x y z)))
   \<or> (\<exists>t. findFrom m x y z s = int t \<and> s \<le> t \<and> t < tetCount m
          \<and> allNonNegative (computeBarycentricCoordinates m t x y z)
          \<and> (\<forall>u. s \<le> u \<and> u < t \<longrightarrow> \<not> allNonNegative (computeBarycentricCoordinates m u x y z)))"
proof (induction m x y z s rule: findFrom.induct)
  case (1 m x y z t)
  show ?case
  proof (cases "t < tetCount m")
    case False
    then show ?thesis by (subst findFrom.simps) auto
  next
    case inrange: True
    show ?thesis
    proof (cases "allNonNegative (computeBarycentricCoordinates m t x y z)")
      case True
      with inrange have "findFrom m x y z t = int t" by (subst findFrom.simps) simp
      with inrange True show ?thesis by auto
    next
      case False
      with inrange have eq: "findFrom m x y z t = findFrom m x y z (Suc t)"
        by (subst findFrom.simps) simp
      from "1.IH" [OF inrange False] show ?thesis
      proof (elim disjE conjE exE)
        assume a: "findFrom m x y z (Suc t) = - 1"
          and b: "\<forall>u. Suc t \<le> u \<and> u < tetCount m \<longrightarrow> \<not> allNonNegative (computeBarycentricCoordinates m u x y z)"
        have "\<forall>u. t \<le> u \<and> u < tetCount m \<longrightarrow> \<not> allNonNegative (computeBarycentricCoordinates m u x y z)"
        proof (intro allI impI)
          fix u assume "t \<le> u \<and> u < tetCount m"
          then show "\<not> allNonNegative (computeBarycentricCoordinates m u x y z)"
            using b False by (cases "u = t") auto
        qed
        with a eq show ?thesis by simp
      next
        fix r
        assume a: "findFrom m x y z (Suc t) = int r" and b: "Suc t \<le> r" "r < tetCount m"
          "allNonNegative (computeBarycentricCoordinates m r x y z)"
          and c: "\<forall>u. Suc t \<le> u \<and> u < r \<longrightarrow> \<not> allNonNegative (computeBarycentricCoordinates m u x y z)"
        have "\<forall>u. t \<le> u \<and> u < r \<longrightarrow> \<not> allNonNegative (computeBarycentricCoordinates m u x y z)"
        proof (intro allI impI)
          fix u assume "t \<le> u \<and> u < r"
          then show "\<not> allNonNegative (computeBarycentricCoordinates m u x y z)"
            using c False by (cases "u = t") auto
        qed
        with a b eq show ?thesis by auto
      qed
    qed
  qed
qed

lemma degenerate_matches:
  "isDegenerate m t \<Longrightarrow> allNonNegative (computeBarycentricCoordinates m t x y z)"
  by (auto simp add: isDegenerate_def computeBarycentricCoordinates_def allNonNegative_def
      split: option.splits)

text \<open>
  Claim C2, amended. \<open>findContainingTetrahedron\<close> returns the smallest index
  \<open>t < tetCount\<close> whose computed barycentric coordinates of the query point are all
  \<open>\<ge> 0\<close>, and \<open>-1\<close> when there is no such index. A degenerate tetrahedron has the
  computed coordinates \<open>(0.25, 0.25, 0.25, 0.25)\<close> and so matches every query point:
  it is returned whenever no tetrahedron before it matches, whatever comes after it.
\<close>

theorem findContainingTetrahedron_first_match:
  "((findContainingTetrahedron m x y z = - 1 \<and>
       (\<forall>t < tetCount m. \<not> allNonNegative (computeBarycentricCoordinates m t x y z)))
    \<or> (\<exists>t < tetCount m. findContainingTetrahedron m x y z = int t
          \<and> allNonNegative (computeBarycentricCoordinates m t x y z)
          \<and> (\<forall>u < t. \<not> allNonNegative (computeBarycentricCoordinates m u x y z))))
   \<and> (\<forall>t. isDegenerate m t \<longrightarrow> allNonNegative (computeBarycentricCoordinates m t x y z))"
  using findFrom_cases [of m x y z 0] degenerate_matches [of m _ x y z]
  unfolding findContainingTetrahedron_def by auto

lemma twoTets_degenerate: "isDegenerate twoTets 0" "\<not> isDegenerate twoTets (Suc 0)"
  by (simp_all add: isDegenerate_def twoTets_points)

text \<open>
  Claim C2 says that a degenerate tetrahedron is never returned unless every candidate is
  degenerate. In \<open>twoTets\<close> tetrahedron 0 is degenerate and tetrahedron 1 is not;
  tetrahedron 1 contains the point \<open>(1/4, 1/4, 1/4)\<close> (all four coordinates are
  \<open>1/4\<close>), and the scan returns tetrahedron 0.
\<close>

theorem findContainingTetrahedron_degenerate_counterexample:
  "findContainingTetrahedron twoTets (1 / 4) (1 / 4) (1 / 4) = 0
   \<and> isDegenerate twoTets 0
   \<and> \<not> isDegenerate twoTets 1
   \<and> computeBarycentricCoordinates twoTets 1 (1 / 4) (1 / 4) (1 / 4) = Some [1 / 4, 1 / 4, 1 / 4, 1 / 4]
   \<and> allNonNegative (computeBarycentricCoordinates twoTets 1 (1 / 4) (1 / 4) (1 / 4))"
  by (simp add: findContainingTetrahedron_def findFrom.simps twoTets_fields twoTets_degenerate
      computeBarycentricCoordinates_def twoTets_points allNonNegative_def)

theorem findContainingTetrahedron_first_match_witness:
  "findContainingTetrahedron unitTet 2 2 2 = - 1
   \<and> findContainingTetrahedron unitTet (1 / 4) (1 / 4) (1 / 4) = 0
   \<and> findContainingTetrahedron twoTets 2 2 2 = 0"
proof -
  have out: "\<not> allNonNegative (computeBarycentricCoordinates unitTet 0 2 2 2)"
    by (simp add: computeBarycentricCoordinates_def unitTet_points allNonNegative_def)
  have inside: "allNonNegative (computeBarycentricCoordinates unitTet 0 (1 / 4) (1 / 4) (1 / 4))"
    by (simp add: computeBarycentricCoordinates_def unitTet_points allNonNegative_def)
  from findContainingTetrahedron_first_match [of unitTet 2 2 2] out
  have a: "findContainingTetrahedron unitTet 2 2 2 = - 1"
    by (auto simp add: unitTet_fields)
  from findContainingTetrahedron_first_match [of unitTet "1 / 4" "1 / 4" "1 / 4"] inside
  have b: "findContainingTetrahedron unitTet (1 / 4) (1 / 4) (1 / 4) = 0"
    by (auto simp add: unitTet_fields)
  note T = findContainingTetrahedron_first_match [of twoTets 2 2 2]
  from T twoTets_degenerate(1)
  have m0: "allNonNegative (computeBarycentricCoordinates twoTets 0 2 2 2)" by blast
  from T m0 obtain t where t: "findContainingTetrahedron twoTets 2 2 2 = int t"
      "\<forall>u < t. \<not> allNonNegative (computeBarycentricCoordinates twoTets u 2 2 2)"
    by (auto simp add: twoTets_fields)
  from t(2) m0 have "\<not> 0 < t" by blast
  with t(1) have c: "findContainingTetrahedron twoTets 2 2 2 = 0" by simp
  from a b c show ?thesis by simp
qed

section \<open>Properties of the particle set\<close>

text \<open>
  Claim C9. On a particle set whose position buffer has the \<open>maxParticles * 3\<close> entries
  that \<open>initialize\<close> allocates, assigning more than \<open>maxParticles * 3\<close> entries (for
  example the entries of \<open>maxParticles + 5\<close> particles) does not throw: it stores the
  first \<open>maxParticles * 3\<close> entries, sets \<open>count\<close> to \<open>maxParticles\<close> and emits one
  warning.
\<close>

theorem setPositions_truncates:
  assumes "length (positions ps) = maxParticles ps * 3"
    and "maxParticles ps * 3 < length new"
  shows "setPositions ps new =
           Inr (ps\<lparr> positions := take (maxParticles ps * 3) new,
                     count := real (maxParticles ps),
                     console := console ps @ [''Too many particles, truncating''] \<rparr>)"
  using assms by (simp add: setPositions_def typedArraySet_def Let_def)

text \<open>Capacity 1 and the 18 entries of \<open>1 + 5\<close> particles.\<close>

theorem setPositions_truncates_witness:
  "setPositions (newParticleSystem 1) [1, 2, 3, 4, 5, 6, 7, 8, 9, 10, 11, 12, 13, 14, 15, 16, 17, 18] =
     Inr \<lparr> maxParticles = 1, count = 1, positions = [1, 2, 3], velocities = [0, 0, 0],
           console = [''Too many particles, truncating''] \<rparr>"
  using setPositions_truncates [of "newParticleSystem 1"
      "[1, 2, 3, 4, 5, 6, 7, 8, 9, 10, 11, 12, 13, 14, 15, 16, 17, 18]"]
  by (simp add: newParticleSystem_def numeral_3_eq_3)

section \<open>Properties of the divergence assembly\<close>

text \<open>
  Claim C3 says that every denominator is floored at \<open>0.1\<close>. The code writes
  \<open>Math.abs(...) || 0.1\<close>, which replaces a spacing only when it is exactly 0: for a
  tetrahedron with vertex spacing \<open>0.05\<close> on each axis the three denominators are
  \<open>0.05\<close>, and a velocity difference of 1 along \<open>x\<close> gives the divergence 20.
\<close>

theorem axisSpacings_below_floor_counterexample:
  "axisSpacings ((0, 0, 0), (1 / 20, 0, 0), (0, 1 / 20, 0), (0, 0, 1 / 20)) = (1 / 20, 1 / 20, 1 / 20)
   \<and> (1 / 20 :: real) < 1 / 10
   \<and> approximateDivergence ((0, 0, 0), (1 / 20, 0, 0), (0, 1 / 20, 0), (0, 0, 1 / 20))
        ((0, 0, 0), (1, 0, 0), (0, 0, 0), (0, 0, 0)) = 20"
  by (simp add: jsOr_def)

text \<open>
  Claim C3, amended. Each of the three denominators of \<open>approximateDivergence\<close> is the
  absolute spacing of the two vertices along its axis when that spacing is not zero, and
  \<open>0.1\<close> when it is zero; so every denominator is positive, and the result is the sum of
  the three velocity differences divided by these denominators.
\<close>

theorem axisSpacings_zero_guard:
  assumes "axisSpacings ((x0, y0, z0), (x1, y1, z1), (x2, y2, z2), (x3, y3, z3)) = (dx, dy, dz)"
  shows "dx = (if x1 = x0 then 1 / 10 else \<bar>x1 - x0\<bar>)
       \<and> dy = (if y2 = y0 then 1 / 10 else \<bar>y2 - y0\<bar>)
       \<and> dz = (if z3 = z0 then 1 / 10 else \<bar>z3 - z0\<bar>)
       \<and> 0 < dx \<and> 0 < dy \<and> 0 < dz
       \<and> approximateDivergence ((x0, y0, z0), (x1, y1, z1), (x2, y2, z2), (x3, y3, z3))
            ((ux0, uy0, uz0), (ux1, uy1, uz1), (ux2, uy2, uz2), (ux3, uy3, uz3))
          = (ux1 - ux0) / dx + (uy2 - uy0) / dy + (uz3 - uz0) / dz"
  using assms by (auto simp add: jsOr_def Let_def)

theorem axisSpacings_zero_guard_witness:
  "axisSpacings ((0, 0, 0), (0, 5, 5), (5, 1 / 4, 5), (5, 5, 2)) = (1 / 10, 1 / 4, 2)
   \<and> approximateDivergence ((0, 0, 0), (0, 5, 5), (5, 1 / 4, 5), (5, 5, 2))
        ((0, 0, 0), (1, 0, 0), (0, 1, 0), (0, 0, 1)) = 10 + 4 + 1 / 2"
proof -
  have a: "axisSpacings ((0, 0, 0), (0, 5, 5), (5, 1 / 4, 5), (5, 5, 2)) = (1 / 10, 1 / 4, 2)"
    by (simp add: jsOr_def)
  from axisSpacings_zero_guard [OF a, of 0 0 0 1 0 0 0 1 0 0 0 1] a show ?thesis by simp
qed

section \<open>Loops over the particle slots\<close>

lemma foldOpt_append:
  "foldOpt f (xs @ ys) s = (case foldOpt f xs s of None \<Rightarrow> None | Some s' \<Rightarrow> foldOpt f ys s')"
  by (induction xs arbitrary: s) (auto split: option.splits)

lemma slotOffsets_shaped:
  assumes "length buf = n * 3"
  shows "slotOffsets buf = map (\<lambda>k. 3 * k) [0..<n]"
proof -
  have "(length buf + 2) div 3 = n" using assms by arith
  then show ?thesis by (simp add: slotOffsets_def)
qed

lemma foldOpt_slots:
  fixes f :: "nat \<Rightarrow> 'a list \<Rightarrow> 'a list option"
  assumes step: "\<And>k xs. k < n \<Longrightarrow> length xs = n * 3 \<Longrightarrow>
      f (3 * k) xs = Some (xs[3 * k := u (3 * k) (xs ! (3 * k)),
                              3 * k + 1 := u (3 * k + 1) (xs ! (3 * k + 1)),
                              3 * k + 2 := u (3 * k + 2) (xs ! (3 * k + 2))])"
    and len: "length xs = n * 3"
  shows "foldOpt f (map (\<lambda>k. 3 * k) [0..<n]) xs = Some (map (\<lambda>i. u i (xs ! i)) [0..<n * 3])"
proof -
  have "m \<le> n \<Longrightarrow> foldOpt f (map (\<lambda>k. 3 * k) [0..<m]) xs
          = Some (map (\<lambda>i. if i < 3 * m then u i (xs ! i) else xs ! i) [0..<n * 3])" for m
  proof (induction m)
    case 0
    have "map (\<lambda>i. xs ! i) [0..<n * 3] = xs"
      using len by (metis map_nth)
    then show ?case by simp
  next
    case (Suc m)
    let ?ys = "map (\<lambda>i. if i < 3 * m then u i (xs ! i) else xs ! i) [0..<n * 3]"
    from Suc have IH: "foldOpt f (map (\<lambda>k. 3 * k) [0..<m]) xs = Some ?ys" and mn: "m < n" by simp_all
    have ly: "length ?ys = n * 3" by simp
    have "f (3 * m) ?ys = Some (?ys[3 * m := u (3 * m) (?ys ! (3 * m)),
                              3 * m + 1 := u (3 * m + 1) (?ys ! (3 * m + 1)),
                              3 * m + 2 := u (3 * m + 2) (?ys ! (3 * m + 2))])"
      by (rule step [OF mn ly])
    also have "?ys[3 * m := u (3 * m) (?ys ! (3 * m)),
                              3 * m + 1 := u (3 * m + 1) (?ys ! (3 * m + 1)),
                              3 * m + 2 := u (3 * m + 2) (?ys ! (3 * m + 2))]
       = map (\<lambda>i. if i < 3 * Suc m then u i (xs ! i) else xs ! i) [0..<n * 3]"
      using mn by (intro nth_equalityI) (auto simp add: nth_list_update)
    finally show ?case using IH by (simp add: foldOpt_append)
  qed
  from this [of n] show ?thesis by simp
qed

lemma slot_arith:
  "(3 * k + 1) div 3 = k" "(3 * k + 2) div 3 = k" "(3 * k) div 3 = k"
  "(3 * k + 1) mod 3 = 1" "(3 * k + 2) mod 3 = 2" "(3 * k) mod 3 = 0"
  "Suc (3 * k) div 3 = k" "Suc (Suc (3 * k)) div 3 = k"
  "Suc (3 * k) mod 3 = 1" "Suc (Suc (3 * k)) mod 3 = 2"
  for k :: nat
  by arith+

lemma slot_map:
  assumes "k < n"
  shows "slot (map f [0..<n * 3]) k = (f (3 * k), f (3 * k + 1), f (3 * k + 2))"
  using assms by (simp add: slot_def)

lemma rd_Some: "rd xs i = Some v \<longleftrightarrow> i < length xs \<and> v = xs ! i"
  by (auto simp add: rd_def)

lemma rd_in_range: "i < length xs \<Longrightarrow> rd xs i = Some (xs ! i)"
  by (simp add: rd_def)

lemma rd3_slot: "3 * k + 2 < length xs \<Longrightarrow> rd3 xs (3 * k) = Some (slot xs k)"
  by (simp add: rd3_def slot_def rd_in_range)

lemma nodePosition_Some:
  "nodePosition ns n = Some p \<longleftrightarrow> (\<exists>k. n = Some k \<and> k * 3 + 2 < length ns \<and> p = slot ns k)"
  by (cases n) (auto simp add: nodePosition_def rd_def slot_def mult.commute split: if_splits)

lemma getTetrahedron_length: "length (getTetrahedron m t) = 4"
  by (simp add: getTetrahedron_def Let_def)

lemma tetPoints_Some:
  assumes "tetPoints m t = Some (p0, p1, p2, p3)"
  shows "\<exists>n0 n1 n2 n3. getTetrahedron m t = [Some n0, Some n1, Some n2, Some n3]
           \<and> n0 * 3 + 2 < length (nodes m) \<and> n1 * 3 + 2 < length (nodes m)
           \<and> n2 * 3 + 2 < length (nodes m) \<and> n3 * 3 + 2 < length (nodes m)
           \<and> p0 = slot (nodes m) n0 \<and> p1 = slot (nodes m) n1
           \<and> p2 = slot (nodes m) n2 \<and> p3 = slot (nodes m) n3"
proof -
  obtain a b c d where tet: "getTetrahedron m t = [a, b, c, d]"
    by (simp add: getTetrahedron_def Let_def)
  from assms tet have "nodePosition (nodes m) a = Some p0" "nodePosition (nodes m) b = Some p1"
    "nodePosition (nodes m) c = Some p2" "nodePosition (nodes m) d = Some p3"
    by (auto simp add: tetPoints_def Let_def split: Option.bind_splits)
  then show ?thesis unfolding nodePosition_Some tet by auto
qed

lemma bary_Some:
  assumes "computeBarycentricCoordinates m t x y z = Some b"
  shows "\<exists>p w0 w1 w2 w3. tetPoints m t = Some p \<and> b = [w0, w1, w2, w3]"
proof (cases "tetPoints m t")
  case None
  with assms show ?thesis by (simp add: computeBarycentricCoordinates_def)
next
  case (Some q)
  obtain p0 p1 p2 p3 where q: "q = (p0, p1, p2, p3)" by (cases q) auto
  show ?thesis
  proof (cases "\<bar>tetrahedronVolume p0 p1 p2 p3\<bar> < 1 / 10 ^ 10")
    case True
    with assms Some q have "b = [1 / 4, 1 / 4, 1 / 4, 1 / 4]"
      by (simp add: computeBarycentricCoordinates_def)
    with Some show ?thesis by blast
  next
    case False
    with assms Some q have "b = [tetrahedronVolume (x, y, z) p1 p2 p3 / tetrahedronVolume p0 p1 p2 p3,
        tetrahedronVolume p0 (x, y, z) p2 p3 / tetrahedronVolume p0 p1 p2 p3,
        tetrahedronVolume p0 p1 (x, y, z) p3 / tetrahedronVolume p0 p1 p2 p3,
        tetrahedronVolume p0 p1 p2 (x, y, z) / tetrahedronVolume p0 p1 p2 p3]"
      by (simp add: computeBarycentricCoordinates_def Let_def del: tetrahedronVolume.simps)
    with Some show ?thesis by blast
  qed
qed

lemma find_result:
  "findContainingTetrahedron m x y z = - 1
   \<or> (\<exists>t. findContainingTetrahedron m x y z = int t \<and> t < tetCount m
          \<and> allNonNegative (computeBarycentricCoordinates m t x y z))"
  using findFrom_cases [of m x y z 0] unfolding findContainingTetrahedron_def by auto

lemma allNonNegative_Some: "allNonNegative b \<Longrightarrow> \<exists>v. b = Some v"
  by (cases b) (simp_all add: allNonNegative_def)

lemma foldOpt_indices:
  fixes f :: "nat \<Rightarrow> 'a list \<Rightarrow> 'a list option"
  assumes step: "\<And>i xs. i < n \<Longrightarrow> length xs = n \<Longrightarrow> f i xs = Some (xs[i := u i (xs ! i)])"
    and len: "length xs = n"
  shows "foldOpt f [0..<n] xs = Some (map (\<lambda>i. u i (xs ! i)) [0..<n])"
proof -
  have "m \<le> n \<Longrightarrow> foldOpt f [0..<m] xs
          = Some (map (\<lambda>i. if i < m then u i (xs ! i) else xs ! i) [0..<n])" for m
  proof (induction m)
    case 0
    have "map (\<lambda>i. xs ! i) [0..<n] = xs"
      using len by (metis map_nth)
    then show ?case by simp
  next
    case (Suc m)
    let ?ys = "map (\<lambda>i. if i < m then u i (xs ! i) else xs ! i) [0..<n]"
    from Suc have IH: "foldOpt f [0..<m] xs = Some ?ys" and mn: "m < n" by simp_all
    have ly: "length ?ys = n" by simp
    have "f m ?ys = Some (?ys[m := u m (?ys ! m)])"
      by (rule step [OF mn ly])
    also have "?ys[m := u m (?ys ! m)]
       = map (\<lambda>i. if i < Suc m then u i (xs ! i) else xs ! i) [0..<n]"
      using mn by (intro nth_equalityI) (auto simp add: nth_list_update)
    finally show ?case using IH by (simp add: foldOpt_append)
  qed
  from this [of n] show ?thesis by simp
qed

lemma foldOpt_pure: "foldOpt (\<lambda>x s. Some (g x s)) xs s = Some (fold g xs s)"
  by (induction xs arbitrary: s) simp_all

lemma fold_invariant:
  assumes "P s" and "\<And>x s. x \<in> set xs \<Longrightarrow> P s \<Longrightarrow> P (f x s)"
  shows "P (fold f xs s)"
  using assms by (induction xs arbitrary: s) simp_all

lemma fold_slots_pair:
  fixes f :: "nat \<Rightarrow> 'a list \<times> 'b list \<Rightarrow> 'a list \<times> 'b list"
  assumes step: "\<And>k xs ys. k < n \<Longrightarrow> length xs = n * 3 \<Longrightarrow> length ys = n * 3 \<Longrightarrow>
      f (3 * k) (xs, ys) =
        (xs[3 * k := u (3 * k) (xs ! (3 * k)) (ys ! (3 * k)),
            3 * k + 1 := u (3 * k + 1) (xs ! (3 * k + 1)) (ys ! (3 * k + 1)),
            3 * k + 2 := u (3 * k + 2) (xs ! (3 * k + 2)) (ys ! (3 * k + 2))],
         ys[3 * k := w (3 * k) (xs ! (3 * k)) (ys ! (3 * k)),
            3 * k + 1 := w (3 * k + 1) (xs ! (3 * k + 1)) (ys ! (3 * k + 1)),
            3 * k + 2 := w (3 * k + 2) (xs ! (3 * k + 2)) (ys ! (3 * k + 2))])"
    and len: "length xs = n * 3" "length ys = n * 3"
  shows "fold f (map (\<lambda>k. 3 * k) [0..<n]) (xs, ys)
     = (map (\<lambda>i. u i (xs ! i) (ys ! i)) [0..<n * 3], map (\<lambda>i. w i (xs ! i) (ys ! i)) [0..<n * 3])"
proof -
  have "m \<le> n \<Longrightarrow> fold f (map (\<lambda>k. 3 * k) [0..<m]) (xs, ys)
          = (map (\<lambda>i. if i < 3 * m then u i (xs ! i) (ys ! i) else xs ! i) [0..<n * 3],
             map (\<lambda>i. if i < 3 * m then w i (xs ! i) (ys ! i) else ys ! i) [0..<n * 3])" for m
  proof (induction m)
    case 0
    have "map (\<lambda>i. xs ! i) [0..<n * 3] = xs" "map (\<lambda>i. ys ! i) [0..<n * 3] = ys"
      using len by (metis map_nth)+
    then show ?case by simp
  next
    case (Suc m)
    let ?xs = "map (\<lambda>i. if i < 3 * m then u i (xs ! i) (ys ! i) else xs ! i) [0..<n * 3]"
    let ?ys = "map (\<lambda>i. if i < 3 * m then w i (xs ! i) (ys ! i) else ys ! i) [0..<n * 3]"
    from Suc have IH: "fold f (map (\<lambda>k. 3 * k) [0..<m]) (xs, ys) = (?xs, ?ys)" and mn: "m < n"
      by simp_all
    have lx: "length ?xs = n * 3" and ly: "length ?ys = n * 3" by simp_all
    have a: "?xs[3 * m := u (3 * m) (?xs ! (3 * m)) (?ys ! (3 * m)),
            3 * m + 1 := u (3 * m + 1) (?xs ! (3 * m + 1)) (?ys ! (3 * m + 1)),
            3 * m + 2 := u (3 * m + 2) (?xs ! (3 * m + 2)) (?ys ! (3 * m + 2))]
       = map (\<lambda>i. if i < 3 * Suc m then u i (xs ! i) (ys ! i) else xs ! i) [0..<n * 3]"
      using mn by (intro nth_equalityI) (auto simp add: nth_list_update)
    have b: "?ys[3 * m := w (3 * m) (?xs ! (3 * m)) (?ys ! (3 * m)),
            3 * m + 1 := w (3 * m + 1) (?xs ! (3 * m + 1)) (?ys ! (3 * m + 1)),
            3 * m + 2 := w (3 * m + 2) (?xs ! (3 * m + 2)) (?ys ! (3 * m + 2))]
       = map (\<lambda>i. if i < 3 * Suc m then w i (xs ! i) (ys ! i) else ys ! i) [0..<n * 3]"
      using mn by (intro nth_equalityI) (auto simp add: nth_list_update)
    show ?case
      using IH by (simp only: upt_Suc_append [OF le0] map_append fold_append comp_apply list.map
          fold_simps step [OF mn lx ly] a b)
  qed
  from this [of n] show ?thesis by simp
qed

lemma foldOpt_invariant:
  assumes "P s" and "\<And>x s. x \<in> set xs \<Longrightarrow> P s \<Longrightarrow> \<exists>s'. f x s = Some s' \<and> P s'"
  shows "\<exists>s'. foldOpt f xs s = Some s' \<and> P s'"
  using assms
proof (induction xs arbitrary: s)
  case Nil
  then show ?case by simp
next
  case (Cons x xs)
  from Cons.prems obtain s1 where s1: "f x s = Some s1" "P s1" by (meson list.set_intros(1))
  from Cons.IH [OF s1(2)] Cons.prems(2) obtain s' where "foldOpt f xs s1 = Some s'" "P s'"
    by (meson list.set_intros(2))
  with s1 show ?case by simp
qed

section \<open>Grid to particle transfer\<close>

lemma interpolate_tet:
  assumes "n0 * 3 + 2 < length vs" "n1 * 3 + 2 < length vs" "n2 * 3 + 2 < length vs" "n3 * 3 + 2 < length vs"
  shows "foldOpt (interpolate vs) (zip [Some n0, Some n1, Some n2, Some n3] [w0, w1, w2, w3]) (0, 0, 0)
     = Some (weighted w3 (slot vs n3) (weighted w2 (slot vs n2)
              (weighted w1 (slot vs n1) (weighted w0 (slot vs n0) (0, 0, 0)))))"
  using assms by (simp add: rd_in_range slot_def mult.commute)

lemma g2pParticle_slot:
  assumes pos: "3 * k + 2 < length (positions ps)"
    and vs: "length (nodeVelocities m) = length (nodes m)"
  shows "g2pParticle ps m (3 * k) vel =
     Some (if 0 \<le> locate m (slot (positions ps) k)
           then (case interpolatedVelocity m (nat (locate m (slot (positions ps) k))) (slot (positions ps) k)
                 of (a, b, c) \<Rightarrow> vel[3 * k := a, 3 * k + 1 := b, 3 * k + 2 := c])
           else vel)"
proof -
  obtain px py pz where p: "slot (positions ps) k = (px, py, pz)" by (cases "slot (positions ps) k")
  have r: "rd3 (positions ps) (3 * k) = Some (px, py, pz)" using rd3_slot [OF pos] p by simp
  show ?thesis
  proof (cases "0 \<le> findContainingTetrahedron m px py pz")
    case False
    then show ?thesis by (simp add: g2pParticle_def r p locate_def)
  next
    case True
    with find_result [of m px py pz] obtain t where t: "findContainingTetrahedron m px py pz = int t"
      and nn: "allNonNegative (computeBarycentricCoordinates m t px py pz)" by auto
    from allNonNegative_Some [OF nn] obtain b where b: "computeBarycentricCoordinates m t px py pz = Some b" ..
    from bary_Some [OF b] obtain q w0 w1 w2 w3 where q: "tetPoints m t = Some q" and bw: "b = [w0, w1, w2, w3]"
      by blast
    obtain p0 p1 p2 p3 where "q = (p0, p1, p2, p3)" by (cases q) auto
    with tetPoints_Some [of m t p0 p1 p2 p3] q obtain n0 n1 n2 n3 where
      tet: "getTetrahedron m t = [Some n0, Some n1, Some n2, Some n3]"
      and rng: "n0 * 3 + 2 < length (nodes m)" "n1 * 3 + 2 < length (nodes m)"
         "n2 * 3 + 2 < length (nodes m)" "n3 * 3 + 2 < length (nodes m)" by auto
    have i: "foldOpt (interpolate (nodeVelocities m)) (zip (getTetrahedron m t) b) (0, 0, 0)
       = Some (interpolatedVelocity m t (px, py, pz))"
      unfolding tet bw using rng
      by (simp only: interpolate_tet vs interpolatedVelocity_def baryAt_def tet b bw prod.case
          list.case option.case)
    show ?thesis
      using True by (simp add: g2pParticle_def r p locate_def t b i Let_def split: prod.splits)
  qed
qed

lemma g2p_loop:
  assumes shaped: "particlesShaped ps"
    and vs: "length (nodeVelocities m) = length (nodes m)"
  shows "foldOpt (g2pParticle ps m) (slotOffsets (positions ps)) (velocities ps)
     = Some (map (\<lambda>i. if 0 \<le> locate m (slot (positions ps) (i div 3))
                        then component (i mod 3)
                               (interpolatedVelocity m (nat (locate m (slot (positions ps) (i div 3))))
                                  (slot (positions ps) (i div 3)))
                        else velocities ps ! i)
               [0..<maxParticles ps * 3])"
proof -
  let ?n = "maxParticles ps"
  define u where "u = (\<lambda>i old. if 0 \<le> locate m (slot (positions ps) (i div 3))
                        then component (i mod 3)
                               (interpolatedVelocity m (nat (locate m (slot (positions ps) (i div 3))))
                                  (slot (positions ps) (i div 3)))
                        else (old::real))"
  from shaped have lp: "length (positions ps) = ?n * 3" and lv: "length (velocities ps) = ?n * 3"
    by (simp_all add: particlesShaped_def)
  have step: "g2pParticle ps m (3 * k) xs
      = Some (xs[3 * k := u (3 * k) (xs ! (3 * k)),
                 3 * k + 1 := u (3 * k + 1) (xs ! (3 * k + 1)),
                 3 * k + 2 := u (3 * k + 2) (xs ! (3 * k + 2))])"
    if "k < ?n" and "length xs = ?n * 3" for k xs
  proof -
    from that lp have "3 * k + 2 < length (positions ps)" by simp
    note g = g2pParticle_slot [OF this vs, of xs]
    show ?thesis
    proof (cases "0 \<le> locate m (slot (positions ps) k)")
      case True
      obtain a b c where "interpolatedVelocity m (nat (locate m (slot (positions ps) k)))
          (slot (positions ps) k) = (a, b, c)"
        by (cases "interpolatedVelocity m (nat (locate m (slot (positions ps) k))) (slot (positions ps) k)")
      with True show ?thesis unfolding g u_def by (simp add: slot_arith)
    next
      case False
      then show ?thesis unfolding g u_def by (simp add: slot_arith)
    qed
  qed
  have "foldOpt (g2pParticle ps m) (map (\<lambda>k. 3 * k) [0..<?n]) (velocities ps)
      = Some (map (\<lambda>i. u i (velocities ps ! i)) [0..<?n * 3])"
    using step lv by (rule foldOpt_slots [where f = "g2pParticle ps m" and u = u and n = "?n"])
  then show ?thesis
    unfolding slotOffsets_shaped [OF lp] by (simp add: u_def)
qed

text \<open>
  Claim C7. For a simulator whose particle buffers have the shape that \<open>initialize\<close>
  allocates and whose node velocity buffer is as long as the node buffer,
  \<open>meshToParticles\<close> returns normally, leaves the mesh and the particle positions
  unchanged, and for every slot \<open>k\<close> of the particle buffers: when the point location of
  the slot's position succeeds (index \<open>\<ge> 0\<close>), the slot's new velocity is the barycentric
  interpolation of the node velocities of the tetrahedron found (the old velocity and
  \<open>flipRatio\<close> do not enter it); when it fails, the slot keeps its velocity.
\<close>

theorem meshToParticles_replaces_velocity:
  assumes shaped: "particlesShaped (particles s)"
    and vs: "length (nodeVelocities (mesh s)) = length (nodes (mesh s))"
  shows "\<exists>s'. meshToParticles s = Inr s'
           \<and> mesh s' = mesh s
           \<and> positions (particles s') = positions (particles s)
           \<and> length (velocities (particles s')) = length (velocities (particles s))
           \<and> (\<forall>k < maxParticles (particles s).
                 slot (velocities (particles s')) k =
                   (if 0 \<le> locate (mesh s) (slot (positions (particles s)) k)
                    then interpolatedVelocity (mesh s)
                           (nat (locate (mesh s) (slot (positions (particles s)) k)))
                           (slot (positions (particles s)) k)
                    else slot (velocities (particles s)) k))"
proof -
  let ?ps = "particles s" and ?m = "mesh s"
  let ?vel = "map (\<lambda>i. if 0 \<le> locate ?m (slot (positions ?ps) (i div 3))
                        then component (i mod 3)
                               (interpolatedVelocity ?m (nat (locate ?m (slot (positions ?ps) (i div 3))))
                                  (slot (positions ?ps) (i div 3)))
                        else velocities ?ps ! i)
               [0..<maxParticles ?ps * 3]"
  from shaped have lv: "length (velocities ?ps) = maxParticles ?ps * 3"
    by (simp add: particlesShaped_def)
  have run: "meshToParticles s = Inr (s\<lparr> particles := ?ps\<lparr> velocities := ?vel \<rparr> \<rparr>)"
    by (simp add: meshToParticles_def Let_def g2p_loop [OF shaped vs] setVelocities_def
        typedArraySet_def)
  have slots: "slot ?vel k =
                   (if 0 \<le> locate ?m (slot (positions ?ps) k)
                    then interpolatedVelocity ?m (nat (locate ?m (slot (positions ?ps) k)))
                           (slot (positions ?ps) k)
                    else slot (velocities ?ps) k)" if "k < maxParticles ?ps" for k
  proof -
    obtain a b c where "interpolatedVelocity ?m (nat (locate ?m (slot (positions ?ps) k)))
          (slot (positions ?ps) k) = (a, b, c)"
      by (cases "interpolatedVelocity ?m (nat (locate ?m (slot (positions ?ps) k))) (slot (positions ?ps) k)")
    then show ?thesis
      unfolding slot_map [OF that] by (simp add: slot_arith) (simp add: slot_def)
  qed
  from run slots lv show ?thesis by simp
qed

lemma flowTet_fields:
  "tetCount flowTet = 1"
  "nodes flowTet = [0, 0, 0,  1, 0, 0,  0, 1, 0,  0, 0, 1]"
  "nodeVelocities flowTet = [1, 0, 0,  0, 2, 0,  0, 0, 4,  8, 8, 8]"
  "tetrahedra flowTet = [0, 1, 2, 3]"
  by (simp_all add: flowTet_def unitTet_def)

lemma flowTet_points:
  "tetPoints flowTet 0 = Some ((0, 0, 0), (1, 0, 0), (0, 1, 0), (0, 0, 1))"
  by (simp add: tetPoints_def getTetrahedron_def nodePosition_def rd_def flowTet_fields)

lemma flowTet_locate:
  "locate flowTet (1 / 4, 1 / 4, 1 / 4) = 0" "locate flowTet (2, 2, 2) = - 1"
  by (simp_all add: locate_def findContainingTetrahedron_def findFrom.simps flowTet_fields
      computeBarycentricCoordinates_def flowTet_points allNonNegative_def)

lemma flowTet_interpolated:
  "interpolatedVelocity flowTet 0 (1 / 4, 1 / 4, 1 / 4) = (9 / 4, 5 / 2, 3)"
  by (simp add: interpolatedVelocity_def baryAt_def computeBarycentricCoordinates_def
      flowTet_points getTetrahedron_def rd_def flowTet_fields slot_def)

lemma g2pSim_fields:
  "mesh g2pSim = flowTet" "maxParticles (particles g2pSim) = 2"
  "positions (particles g2pSim) = [1 / 4, 1 / 4, 1 / 4,  2, 2, 2]"
  "velocities (particles g2pSim) = [9, 9, 9,  7, 7, 7]"
  by (simp_all add: g2pSim_def)

theorem meshToParticles_replaces_velocity_witness:
  "\<exists>s'. meshToParticles g2pSim = Inr s'
       \<and> slot (positions (particles g2pSim)) 0 = (1 / 4, 1 / 4, 1 / 4)
       \<and> locate (mesh g2pSim) (1 / 4, 1 / 4, 1 / 4) = 0
       \<and> slot (velocities (particles s')) 0 = (9 / 4, 5 / 2, 3)
       \<and> slot (positions (particles g2pSim)) 1 = (2, 2, 2)
       \<and> locate (mesh g2pSim) (2, 2, 2) = - 1
       \<and> slot (velocities (particles s')) 1 = (7, 7, 7)"
proof -
  have shaped: "particlesShaped (particles g2pSim)"
    by (simp add: particlesShaped_def g2pSim_fields)
  have vs: "length (nodeVelocities (mesh g2pSim)) = length (nodes (mesh g2pSim))"
    by (simp add: g2pSim_fields flowTet_fields)
  have p0: "slot (positions (particles g2pSim)) 0 = (1 / 4, 1 / 4, 1 / 4)"
    and p1: "slot (positions (particles g2pSim)) 1 = (2, 2, 2)"
    and v1: "slot (velocities (particles g2pSim)) 1 = (7, 7, 7)"
    by (simp_all add: slot_def g2pSim_fields)
  from meshToParticles_replaces_velocity [OF shaped vs] obtain s' where
    run: "meshToParticles g2pSim = Inr s'"
    and slots: "\<forall>k < maxParticles (particles g2pSim).
                 slot (velocities (particles s')) k =
                   (if 0 \<le> locate (mesh g2pSim) (slot (positions (particles g2pSim)) k)
                    then interpolatedVelocity (mesh g2pSim)
                           (nat (locate (mesh g2pSim) (slot (positions (particles g2pSim)) k)))
                           (slot (positions (particles g2pSim)) k)
                    else slot (velocities (particles g2pSim)) k)"
    by blast
  from slots [rule_format, of 0] have a: "slot (velocities (particles s')) 0 = (9 / 4, 5 / 2, 3)"
    unfolding p0 by (simp add: g2pSim_fields(1,2) flowTet_locate flowTet_interpolated)
  from slots [rule_format, of 1] have b: "slot (velocities (particles s')) 1 = (7, 7, 7)"
    unfolding p1 v1 by (simp add: g2pSim_fields(1,2) flowTet_locate)
  from run a b p0 p1 show ?thesis
    by (simp add: g2pSim_fields(1) flowTet_locate)
qed

section \<open>The Poisson solve\<close>

lemma scaleRhs_map:
  assumes "length divergence = n"
  shows "scaleRhs n divergence dt = map (\<lambda>d. d * dt) divergence"
proof -
  have "foldOpt (\<lambda>i rhs. Some (rhs[i := rhs ! i * dt])) [0..<n] divergence
          = Some (map (\<lambda>i. divergence ! i * dt) [0..<n])"
    using assms by (intro foldOpt_indices [where u = "\<lambda>i d. d * dt"]) simp_all
  then have "scaleRhs n divergence dt = map (\<lambda>i. divergence ! i * dt) [0..<n]"
    by (simp add: foldOpt_pure scaleRhs_def)
  also have "\<dots> = map (\<lambda>d. d * dt) divergence"
    using assms by (intro nth_equalityI) simp_all
  finally show ?thesis .
qed

lemma getTetrahedron_valid:
  assumes "meshIndicesValid m" and "t < tetCount m"
  shows "\<forall>e \<in> set (getTetrahedron m t). \<exists>n. e = Some n \<and> n < nodeCount m"
proof -
  from assms have "t * 4 + 3 < length (tetrahedra m)" by (simp add: meshIndicesValid_def)
  moreover from assms have "\<And>j. j < length (tetrahedra m) \<Longrightarrow> tetrahedra m ! j < nodeCount m"
    by (simp add: meshIndicesValid_def)
  ultimately show ?thesis by (simp add: getTetrahedron_def Let_def rd_def)
qed

lemma getNeighbors_valid:
  assumes "meshIndicesValid m"
  shows "\<forall>e \<in> set (getNeighbors m i). \<exists>n. e = Some n \<and> n < nodeCount m"
  unfolding getNeighbors_def
proof (rule fold_invariant)
  show "\<forall>e \<in> set []. \<exists>n. e = Some n \<and> n < nodeCount m" by simp
next
  fix t acc
  assume t: "t \<in> set [0..<tetCount m]" and acc: "\<forall>e \<in> set acc. \<exists>n. e = Some n \<and> n < nodeCount m"
  from t have "t < tetCount m" by simp
  note tet = getTetrahedron_valid [OF assms this]
  have "\<forall>e \<in> set (fold (\<lambda>n acc. if n \<noteq> Some i then setAdd acc n else acc) (getTetrahedron m t) acc).
          \<exists>n. e = Some n \<and> n < nodeCount m"
  proof (rule fold_invariant)
    show "\<forall>e \<in> set acc. \<exists>n. e = Some n \<and> n < nodeCount m" by (rule acc)
  next
    fix x a
    assume "x \<in> set (getTetrahedron m t)" and "\<forall>e \<in> set a. \<exists>n. e = Some n \<and> n < nodeCount m"
    with tet show "\<forall>e \<in> set (if x \<noteq> Some i then setAdd a x else a). \<exists>n. e = Some n \<and> n < nodeCount m"
      by (auto simp add: setAdd_def)
  qed
  then show "\<forall>e \<in> set (addTetNeighbors m i t acc). \<exists>n. e = Some n \<and> n < nodeCount m"
    using acc by (simp add: addTetNeighbors_def Let_def)
qed

lemma sumOld_valid:
  assumes "\<forall>e \<in> set ns. \<exists>n. e = Some n \<and> n < length pOld"
  shows "sumOld pOld ns = Some (\<Sum>n \<leftarrow> map the ns. pOld ! n)"
  using assms by (induction ns) (auto simp add: rd_def)

lemma jacobiNode_valid:
  assumes valid: "meshIndicesValid m" and i: "i < nodeCount m"
    and lens: "length pOld = nodeCount m" "length rhs = nodeCount m"
  shows "jacobiNode m rhs pOld i p
    = Some (p[i := (if neighborNodes m i = [] then p ! i
                    else ((\<Sum>n \<leftarrow> neighborNodes m i. pOld ! n) - rhs ! i) / real (length (neighborNodes m i)))])"
proof -
  from getNeighbors_valid [OF valid, of i] lens
  have "sumOld pOld (getNeighbors m i) = Some (\<Sum>n \<leftarrow> neighborNodes m i. pOld ! n)"
    unfolding neighborNodes_def by (intro sumOld_valid) simp
  with i lens show ?thesis
    by (simp add: jacobiNode_def Let_def rd_def neighborNodes_def)
qed

lemma jacobi_sweep:
  assumes valid: "meshIndicesValid m"
    and lens: "length pOld = nodeCount m" "length rhs = nodeCount m"
  shows "foldOpt (jacobiNode m rhs pOld) [0..<nodeCount m] pOld = Some (jacobiPass m rhs pOld)"
proof -
  have "foldOpt (jacobiNode m rhs pOld) [0..<nodeCount m] pOld
      = Some (map (\<lambda>i. (\<lambda>i old. if neighborNodes m i = [] then old
                    else ((\<Sum>n \<leftarrow> neighborNodes m i. pOld ! n) - rhs ! i) / real (length (neighborNodes m i))) i (pOld ! i))
                [0..<nodeCount m])"
    using lens by (intro foldOpt_indices) (simp_all add: jacobiNode_valid [OF valid _ lens])
  then show ?thesis by (simp add: jacobiPass_def jacobiUpdate_def cong: map_cong)
qed

lemma maxDiff_fold:
  assumes "j \<le> length p" "j \<le> length q"
  shows "foldOpt (maxDiffStep p q) [0..<j] d
           = Some (Max (insert d ((\<lambda>i. \<bar>p ! i - q ! i\<bar>) ` {0..<j})))"
  using assms
proof (induction j)
  case 0
  then show ?case by simp
next
  case (Suc j)
  let ?f = "\<lambda>i. \<bar>p ! i - q ! i\<bar>"
  have set: "insert d (?f ` {0..<Suc j}) = insert (?f j) (insert d (?f ` {0..<j}))"
    by (auto simp add: atLeastLessThanSuc)
  have "Max (insert (?f j) (insert d (?f ` {0..<j}))) = max (?f j) (Max (insert d (?f ` {0..<j})))"
    by (rule Max_insert) simp_all
  with Suc set show ?case
    by (simp add: foldOpt_append maxDiffStep_def rd_def max.commute)
qed

lemma maxDiff_valid:
  assumes "length p = n" "length q = n"
  shows "foldOpt (maxDiffStep p q) [0..<n] 0 = Some (maxChange p q)"
  using assms maxDiff_fold [of n p q 0] by (simp add: maxChange_def)

lemma jacobiPass_length: "length (jacobiPass m rhs p) = nodeCount m"
  by (simp add: jacobiPass_def)

lemma jacobiPass_funpow_length:
  "length p = nodeCount m \<Longrightarrow> length ((jacobiPass m rhs ^^ k) p) = nodeCount m"
  by (induction k) (simp_all add: jacobiPass_length)

lemma jacobiLoop_runs:
  "meshIndicesValid m \<Longrightarrow> length rhs = nodeCount m \<Longrightarrow>
   length pOld = nodeCount m \<Longrightarrow> length p = nodeCount m \<Longrightarrow> iter \<le> maxIterations solver \<Longrightarrow>
    \<exists>k. jacobiLoop solver m rhs pOld iter p = Inr ((jacobiPass m rhs ^^ k) p, iter + k)
       \<and> iter + k \<le> maxIterations solver
       \<and> (iter + k < maxIterations solver \<longrightarrow>
             0 < k \<and> maxChange ((jacobiPass m rhs ^^ k) p) ((jacobiPass m rhs ^^ (k - 1)) p) < tolerance solver)
       \<and> (\<forall>j. 0 < j \<and> j < k \<longrightarrow>
             \<not> maxChange ((jacobiPass m rhs ^^ j) p) ((jacobiPass m rhs ^^ (j - 1)) p) < tolerance solver)"
proof (induction solver m rhs pOld iter p rule: jacobiLoop.induct)
  case (1 solver m rhs pressureOld iter pressure)
  let ?J = "jacobiPass m rhs"
  show ?case
  proof (cases "iter < maxIterations solver")
    case False
    with "1.prems" have "jacobiLoop solver m rhs pressureOld iter pressure = Inr (pressure, iter)"
      by (subst jacobiLoop.simps) simp
    with False "1.prems" show ?thesis by (intro exI [of _ 0]) simp
  next
    case True
    from "1.prems" have set: "typedArraySet pressureOld pressure = Inr pressure"
      by (simp add: typedArraySet_def)
    from "1.prems"
    have sweep: "foldOpt (jacobiNode m rhs pressure) [0..<nodeCount m] pressure = Some (?J pressure)"
      by (intro jacobi_sweep) simp_all
    from "1.prems" have diff: "foldOpt (maxDiffStep (?J pressure) pressure) [0..<nodeCount m] 0
        = Some (maxChange (?J pressure) pressure)"
      by (intro maxDiff_valid) (simp_all add: jacobiPass_length)
    show ?thesis
    proof (cases "maxChange (?J pressure) pressure < tolerance solver")
      case conv: True
      with True set sweep diff
      have "jacobiLoop solver m rhs pressureOld iter pressure = Inr (?J pressure, Suc iter)"
        by (subst jacobiLoop.simps) simp
      with True conv show ?thesis by (intro exI [of _ 1]) auto
    next
      case nconv: False
      with True set sweep diff
      have eq: "jacobiLoop solver m rhs pressureOld iter pressure
          = jacobiLoop solver m rhs pressure (Suc iter) (?J pressure)"
        by (subst jacobiLoop.simps) simp
      from True "1.prems" have "\<exists>k. jacobiLoop solver m rhs pressure (Suc iter) (?J pressure)
           = Inr ((?J ^^ k) (?J pressure), Suc iter + k)
         \<and> Suc iter + k \<le> maxIterations solver
         \<and> (Suc iter + k < maxIterations solver \<longrightarrow>
               0 < k \<and> maxChange ((?J ^^ k) (?J pressure)) ((?J ^^ (k - 1)) (?J pressure)) < tolerance solver)
         \<and> (\<forall>j. 0 < j \<and> j < k \<longrightarrow>
               \<not> maxChange ((?J ^^ j) (?J pressure)) ((?J ^^ (j - 1)) (?J pressure)) < tolerance solver)"
        by (intro "1.IH" [OF True set sweep diff nconv]) (simp_all add: jacobiPass_length)
      then obtain k where k: "jacobiLoop solver m rhs pressure (Suc iter) (?J pressure)
           = Inr ((?J ^^ k) (?J pressure), Suc iter + k)"
         "Suc iter + k \<le> maxIterations solver"
         "Suc iter + k < maxIterations solver \<longrightarrow>
               0 < k \<and> maxChange ((?J ^^ k) (?J pressure)) ((?J ^^ (k - 1)) (?J pressure)) < tolerance solver"
         "\<forall>j. 0 < j \<and> j < k \<longrightarrow>
               \<not> maxChange ((?J ^^ j) (?J pressure)) ((?J ^^ (j - 1)) (?J pressure)) < tolerance solver"
        by blast
      have shift: "(?J ^^ j) (?J pressure) = (?J ^^ Suc j) pressure" for j
        by (simp add: funpow_swap1)
      have a: "jacobiLoop solver m rhs pressureOld iter pressure = Inr ((?J ^^ Suc k) pressure, iter + Suc k)"
        using eq k(1) by (simp add: shift)
      have b: "iter + Suc k \<le> maxIterations solver" using k(2) by simp
      have c: "iter + Suc k < maxIterations solver \<longrightarrow>
             0 < Suc k \<and> maxChange ((?J ^^ Suc k) pressure) ((?J ^^ (Suc k - 1)) pressure) < tolerance solver"
      proof
        assume "iter + Suc k < maxIterations solver"
        with k(3) have pos: "0 < k"
          and lt: "maxChange ((?J ^^ k) (?J pressure)) ((?J ^^ (k - 1)) (?J pressure)) < tolerance solver"
          by simp_all
        from pos have "Suc (k - 1) = k" by simp
        with lt shift [of k] shift [of "k - 1"]
        show "0 < Suc k \<and> maxChange ((?J ^^ Suc k) pressure) ((?J ^^ (Suc k - 1)) pressure) < tolerance solver"
          by simp
      qed
      have d: "\<forall>j. 0 < j \<and> j < Suc k \<longrightarrow>
             \<not> maxChange ((?J ^^ j) pressure) ((?J ^^ (j - 1)) pressure) < tolerance solver"
      proof (intro allI impI)
        fix j assume j: "0 < j \<and> j < Suc k"
        show "\<not> maxChange ((?J ^^ j) pressure) ((?J ^^ (j - 1)) pressure) < tolerance solver"
        proof (cases j)
          case 0
          with j show ?thesis by simp
        next
          case (Suc j')
          show ?thesis
          proof (cases j')
            case 0
            with Suc nconv show ?thesis by simp
          next
            case (Suc i)
            with \<open>j = Suc j'\<close> j have "0 < Suc i \<and> Suc i < k" by simp
            with k(4) have "\<not> maxChange ((?J ^^ Suc i) (?J pressure)) ((?J ^^ (Suc i - 1)) (?J pressure))
                < tolerance solver" by blast
            then have "\<not> maxChange ((?J ^^ Suc i) (?J pressure)) ((?J ^^ i) (?J pressure))
                < tolerance solver" by simp
            then have "\<not> maxChange ((?J ^^ Suc (Suc i)) pressure) ((?J ^^ Suc i) pressure)
                < tolerance solver" unfolding shift .
            with Suc \<open>j = Suc j'\<close> show ?thesis by simp
          qed
        qed
      qed
      from a b c d show ?thesis by blast
    qed
  qed
qed

text \<open>
  Claim C6. For a mesh whose tetrahedra hold valid node indices and for divergence and
  pressure buffers of \<open>nodeCount\<close> entries, as \<open>solve\<close> passes them:
  \<open>conjugateGradient\<close> returns normally after \<open>k\<close> passes, its result is the
  \<open>k\<close>-fold application of the Jacobi pass for \<open>rhs = divergence * dt\<close> to the initial
  pressures, \<open>k\<close> is at most \<open>maxIterations\<close>, the loop has stopped before
  \<open>maxIterations\<close> only if the maximum change of the last pass was below
  \<open>tolerance\<close>, and no earlier pass had a maximum change below \<open>tolerance\<close>. The
  in-place loop over the nodes computes the Jacobi pass: each node with a neighbor gets
  \<open>(sum of the neighbors' previous pressures - rhs) / neighborCount\<close>, a node without
  neighbors keeps its value. The solver is constructed with \<open>maxIterations = 50\<close> and
  \<open>tolerance = 1e-4\<close>.
\<close>

theorem conjugateGradient_jacobi:
  assumes valid: "meshIndicesValid m"
    and dv: "length divergence = nodeCount m"
    and pr: "length pressure = nodeCount m"
  shows "\<exists>k rhs. rhs = map (\<lambda>d. d * dt) divergence
       \<and> conjugateGradient solver m divergence pressure dt = Inr ((jacobiPass m rhs ^^ k) pressure, k)
       \<and> k \<le> maxIterations solver
       \<and> (k < maxIterations solver \<longrightarrow>
             0 < k \<and> maxChange ((jacobiPass m rhs ^^ k) pressure) ((jacobiPass m rhs ^^ (k - 1)) pressure)
                      < tolerance solver)
       \<and> (\<forall>j. 0 < j \<and> j < k \<longrightarrow>
             \<not> maxChange ((jacobiPass m rhs ^^ j) pressure) ((jacobiPass m rhs ^^ (j - 1)) pressure)
                 < tolerance solver)
       \<and> (\<forall>p. length p = nodeCount m \<longrightarrow>
             foldOpt (jacobiNode m rhs p) [0..<nodeCount m] p = Some (jacobiPass m rhs p)
             \<and> (\<forall>i < nodeCount m. jacobiPass m rhs p ! i =
                  (if neighborNodes m i = [] then p ! i
                   else ((\<Sum>n \<leftarrow> neighborNodes m i. p ! n) - rhs ! i) / real (length (neighborNodes m i)))))
       \<and> maxIterations newPressureSolver = 50 \<and> tolerance newPressureSolver = 1 / 10 ^ 4"
proof -
  let ?rhs = "map (\<lambda>d. d * dt) divergence"
  have lr: "length ?rhs = nodeCount m" using dv by simp
  have cg: "conjugateGradient solver m divergence pressure dt
      = jacobiLoop solver m ?rhs (replicate (nodeCount m) 0) 0 pressure"
    by (simp add: conjugateGradient_def Let_def scaleRhs_map [OF dv])
  from jacobiLoop_runs [OF valid lr, of "replicate (nodeCount m) 0" pressure 0 solver] pr
  obtain k where k: "jacobiLoop solver m ?rhs (replicate (nodeCount m) 0) 0 pressure
        = Inr ((jacobiPass m ?rhs ^^ k) pressure, k)"
      "k \<le> maxIterations solver"
      "k < maxIterations solver \<longrightarrow>
             0 < k \<and> maxChange ((jacobiPass m ?rhs ^^ k) pressure) ((jacobiPass m ?rhs ^^ (k - 1)) pressure)
                      < tolerance solver"
      "\<forall>j. 0 < j \<and> j < k \<longrightarrow>
             \<not> maxChange ((jacobiPass m ?rhs ^^ j) pressure) ((jacobiPass m ?rhs ^^ (j - 1)) pressure)
                 < tolerance solver"
    by auto
  have pass: "\<forall>p. length p = nodeCount m \<longrightarrow>
             foldOpt (jacobiNode m ?rhs p) [0..<nodeCount m] p = Some (jacobiPass m ?rhs p)
             \<and> (\<forall>i < nodeCount m. jacobiPass m ?rhs p ! i =
                  (if neighborNodes m i = [] then p ! i
                   else ((\<Sum>n \<leftarrow> neighborNodes m i. p ! n) - ?rhs ! i) / real (length (neighborNodes m i))))"
    using jacobi_sweep [OF valid _ lr] by (simp add: jacobiPass_def jacobiUpdate_def)
  have cfg: "maxIterations newPressureSolver = 50 \<and> tolerance newPressureSolver = 1 / 10 ^ 4"
    by (simp add: newPressureSolver_def)
  from cg k pass cfg show ?thesis by (intro exI [of _ k] exI [of _ ?rhs]) simp
qed

lemma unitTet_valid: "meshIndicesValid unitTet"
  by (simp add: meshIndicesValid_def unitTet_def)

lemma unitTet_count: "nodeCount unitTet = 4" "tetCount unitTet = 1"
  by (simp_all add: unitTet_def)

lemma unitTet_neighbors:
  "getNeighbors unitTet 0 = [Some 1, Some 2, Some 3]"
  "getNeighbors unitTet (Suc 0) = [Some 0, Some 2, Some 3]"
  "getNeighbors unitTet 2 = [Some 0, Some 1, Some 3]"
  "getNeighbors unitTet 3 = [Some 0, Some 1, Some 2]"
  by (simp_all add: getNeighbors_def addTetNeighbors_def getTetrahedron_def rd_def setAdd_def
      unitTet_def)

lemma upt4: "[0..<4] = [0, 1, 2, 3]"
  by (simp add: upt_rec)

lemma unitTet_pass:
  "jacobiPass unitTet [r0, r1, r2, r3] [a, b, c, d]
     = [(b + c + d - r0) / 3, (a + c + d - r1) / 3, (a + b + d - r2) / 3, (a + b + c - r3) / 3]"
  by (simp add: jacobiPass_def jacobiUpdate_def neighborNodes_def unitTet_neighbors unitTet_count upt4)

lemma maxChange4:
  "maxChange [a, b, c, d] [a', b', c', d']
     = max 0 (max \<bar>a - a'\<bar> (max \<bar>b - b'\<bar> (max \<bar>c - c'\<bar> \<bar>d - d'\<bar>)))"
proof -
  have s: "{0..<length [a', b', c', d']} = {0, Suc 0, 2, 3}" by auto
  show ?thesis unfolding maxChange_def s by simp
qed

text \<open>
  On the one-tetrahedron mesh with \<open>divergence = (1, -1, 0, 0)\<close> and \<open>dt = 3e-4\<close> the
  first pass changes the pressures by exactly \<open>1e-4\<close>, which is not below the tolerance,
  and the second by a third of that: the solver stops after two passes.
\<close>

theorem conjugateGradient_jacobi_witness:
  "conjugateGradient newPressureSolver unitTet [1, - 1, 0, 0] [0, 0, 0, 0] (3 / 10 ^ 4)
     = Inr ([- 1 / 15000, 1 / 15000, 0, 0], 2)"
proof -
  let ?rhs = "map (\<lambda>d. d * (3 / 10 ^ 4)) [1, - 1, 0, 0 :: real]"
  let ?J = "jacobiPass unitTet ?rhs"
  let ?p = "[0, 0, 0, 0 :: real]"
  have lens: "length [1, - 1, 0, 0 :: real] = nodeCount unitTet" "length ?p = nodeCount unitTet"
    by (simp_all add: unitTet_count)
  from conjugateGradient_jacobi [OF unitTet_valid lens, where solver = newPressureSolver and dt = "3 / 10 ^ 4"]
  obtain k where run: "conjugateGradient newPressureSolver unitTet [1, - 1, 0, 0] ?p (3 / 10 ^ 4)
        = Inr ((?J ^^ k) ?p, k)"
    and early: "k < maxIterations newPressureSolver \<longrightarrow>
             0 < k \<and> maxChange ((?J ^^ k) ?p) ((?J ^^ (k - 1)) ?p) < tolerance newPressureSolver"
    and late: "\<forall>j. 0 < j \<and> j < k \<longrightarrow>
             \<not> maxChange ((?J ^^ j) ?p) ((?J ^^ (j - 1)) ?p) < tolerance newPressureSolver"
    by blast
  have p1: "?J ?p = [- 1 / 10 ^ 4, 1 / 10 ^ 4, 0, 0]"
    by (simp add: unitTet_pass)
  have p2: "?J (?J ?p) = [- 1 / 15000, 1 / 15000, 0, 0]"
    unfolding p1 by (simp add: unitTet_pass)
  have m1: "\<not> maxChange (?J ?p) ?p < tolerance newPressureSolver"
    unfolding p1 by (simp add: maxChange4 newPressureSolver_def)
  have m2: "maxChange (?J (?J ?p)) (?J ?p) < tolerance newPressureSolver"
    unfolding p2 unfolding p1 by (simp add: maxChange4 newPressureSolver_def)
  have cap: "maxIterations newPressureSolver = 50" by (simp add: newPressureSolver_def)
  have "k = 2"
  proof (rule ccontr)
    assume "k \<noteq> 2"
    then consider "k = 0" | "k = 1" | "2 < k" by arith
    then show False
    proof cases
      case 1
      with early cap show False by simp
    next
      case 2
      with early cap m1 show False by simp
    next
      case 3
      then have "0 < (2::nat) \<and> 2 < k" by simp
      with late have "\<not> maxChange ((?J ^^ 2) ?p) ((?J ^^ (2 - 1)) ?p) < tolerance newPressureSolver"
        by blast
      with m2 show False by (simp add: numeral_2_eq_2)
    qed
  qed
  with run p2 show ?thesis by (simp add: numeral_2_eq_2)
qed

section \<open>Particle to grid transfer\<close>

lemma scatter_zero_velocity:
  "fold (scatter (0, 0, 0)) (zip (map Some is) bary) (ns, ws) = (ns, addWeights is bary ws)"
proof (induction "is" arbitrary: bary ws)
  case Nil
  then show ?case by simp
next
  case (Cons i "is")
  then show ?case by (cases bary) (simp_all add: Let_def)
qed

lemma p2gParticle_zero_velocity:
  assumes pos: "3 * k + 2 < length (positions ps)" "slot (positions ps) k = q"
    and vel: "3 * k + 2 < length (velocities ps)" "slot (velocities ps) k = (0, 0, 0)"
  shows "\<exists>ws'. p2gParticle ps m (3 * k) (ns, ws) = Some (ns, ws')
      \<and> (if 0 \<le> locate (m\<lparr> nodes := ns \<rparr>) q
          then \<exists>n0 n1 n2 n3 w0 w1 w2 w3.
                 getTetrahedron (m\<lparr> nodes := ns \<rparr>) (nat (locate (m\<lparr> nodes := ns \<rparr>) q))
                   = [Some n0, Some n1, Some n2, Some n3]
               \<and> baryAt (m\<lparr> nodes := ns \<rparr>) (nat (locate (m\<lparr> nodes := ns \<rparr>) q)) q
                   = Some [w0, w1, w2, w3]
               \<and> 0 \<le> w0 \<and> 0 \<le> w1 \<and> 0 \<le> w2 \<and> 0 \<le> w3
               \<and> ws' = addWeights [n0, n1, n2, n3] [w0, w1, w2, w3] ws
          else ws' = ws)"
proof -
  let ?cur = "m\<lparr> nodes := ns \<rparr>"
  obtain px py pz where q: "q = (px, py, pz)" by (cases q)
  have rp: "rd3 (positions ps) (3 * k) = Some (px, py, pz)" using rd3_slot [OF pos(1)] pos(2) q by simp
  have rv: "rd3 (velocities ps) (3 * k) = Some (0, 0, 0)" using rd3_slot [OF vel(1)] vel(2) by simp
  show ?thesis
  proof (cases "0 \<le> findContainingTetrahedron ?cur px py pz")
    case False
    then show ?thesis by (simp add: p2gParticle_def rp rv locate_def q)
  next
    case True
    with find_result [of ?cur px py pz] obtain t where t: "findContainingTetrahedron ?cur px py pz = int t"
      and nn: "allNonNegative (computeBarycentricCoordinates ?cur t px py pz)" by auto
    from allNonNegative_Some [OF nn] obtain b where b: "computeBarycentricCoordinates ?cur t px py pz = Some b" ..
    from bary_Some [OF b] obtain r w0 w1 w2 w3 where r: "tetPoints ?cur t = Some r" and bw: "b = [w0, w1, w2, w3]"
      by blast
    obtain p0 p1 p2 p3 where "r = (p0, p1, p2, p3)" by (cases r) auto
    with tetPoints_Some [of ?cur t p0 p1 p2 p3] r obtain n0 n1 n2 n3 where
      tet: "getTetrahedron ?cur t = [Some n0, Some n1, Some n2, Some n3]" by auto
    from nn b bw have w: "0 \<le> w0 \<and> 0 \<le> w1 \<and> 0 \<le> w2 \<and> 0 \<le> w3"
      by (simp add: allNonNegative_def)
    have sc: "fold (scatter (0, 0, 0)) (zip (getTetrahedron ?cur t) b) (ns, ws)
        = (ns, addWeights [n0, n1, n2, n3] [w0, w1, w2, w3] ws)"
      using scatter_zero_velocity [of "[n0, n1, n2, n3]" b ns ws] by (simp add: tet bw)
    have run: "p2gParticle ps m (3 * k) (ns, ws)
        = Some (ns, addWeights [n0, n1, n2, n3] [w0, w1, w2, w3] ws)"
      using True by (simp add: p2gParticle_def rp rv t b sc Let_def)
    show ?thesis
      using True run tet b bw w by (simp add: locate_def t baryAt_def q)
  qed
qed

lemma zeros_update: "(replicate n (0::real))[i := replicate n 0 ! i / w] = replicate n 0"
  by (cases "i < n") (simp_all add: list_update_same_conv list_update_beyond)

lemma normalizeNode_zeros: "normalizeNode ws i (replicate n 0) = replicate n 0"
  by (simp add: normalizeNode_def Let_def zeros_update split: option.splits)

text \<open>
  \<open>particlesToMesh\<close> fetches \<open>this.mesh.getNodes()\<close>, the position buffer, where its
  comments speak of node velocities, zeroes it and accumulates into it. For every state at
  rest (all particle velocities zero, as after \<open>initialize\<close>) with particle buffers of the
  shape that \<open>initialize\<close> allocates, the phase leaves every node position equal to 0.
\<close>

lemma particlesToMesh_at_rest:
  assumes shaped: "particlesShaped (particles s)"
    and rest: "\<forall>k < maxParticles (particles s). slot (velocities (particles s)) k = (0, 0, 0)"
  shows "particlesToMesh s =
     Inr (s\<lparr> mesh := (mesh s)\<lparr> nodes := replicate (length (nodes (mesh s))) 0,
                               nodeVelocities := replicate (length (nodes (mesh s))) 0 \<rparr> \<rparr>)"
proof -
  let ?ps = "particles s" and ?m = "mesh s"
  let ?z = "replicate (length (nodes ?m)) (0::real)"
  from shaped have lp: "length (positions ?ps) = maxParticles ?ps * 3"
    and lv: "length (velocities ?ps) = maxParticles ?ps * 3"
    by (simp_all add: particlesShaped_def)
  have "\<exists>st. foldOpt (p2gParticle ?ps ?m) (map (\<lambda>k. 3 * k) [0..<maxParticles ?ps])
            (?z, replicate (length (nodes ?m) div 3) 0) = Some st \<and> fst st = ?z"
  proof (rule foldOpt_invariant)
    show "fst (?z, replicate (length (nodes ?m) div 3) (0::real)) = ?z" by simp
  next
    fix p :: nat and st :: "real list \<times> real list"
    assume p: "p \<in> set (map (\<lambda>k. 3 * k) [0..<maxParticles ?ps])" and st: "fst st = ?z"
    from p obtain k where k: "k < maxParticles ?ps" "p = 3 * k" by auto
    obtain ws where sw: "st = (?z, ws)" using st by (cases st) simp
    from k lp lv have r: "3 * k + 2 < length (positions ?ps)" "3 * k + 2 < length (velocities ?ps)"
      by simp_all
    from rest k have zv: "slot (velocities ?ps) k = (0, 0, 0)" by simp
    from p2gParticle_zero_velocity [OF r(1) refl r(2) zv, of ?m ?z ws]
    obtain ws' where "p2gParticle ?ps ?m (3 * k) (?z, ws) = Some (?z, ws')" by blast
    with k sw show "\<exists>s'. p2gParticle ?ps ?m p st = Some s' \<and> fst s' = ?z" by simp
  qed
  then obtain ws where loop: "foldOpt (p2gParticle ?ps ?m) (slotOffsets (positions ?ps))
            (?z, replicate (length (nodes ?m) div 3) 0) = Some (?z, ws)"
    unfolding slotOffsets_shaped [OF lp] by (metis fst_conv surj_pair)
  have norm: "fold (normalizeNode ws) xs ?z = ?z" for xs
    by (rule fold_invariant [where P = "\<lambda>ns. ns = ?z"]) (simp_all add: normalizeNode_zeros)
  have z: "map (\<lambda>_. 0::real) (nodes ?m) = ?z" by (simp add: map_replicate_const)
  show ?thesis
    by (simp add: particlesToMesh_def Let_def z loop norm)
qed

text \<open>
  Claim C1 says that P2G leaves the node positions as they were at mesh construction. On
  the mesh that \<open>createRegularMesh(1, 1, 1)\<close> builds over \<open>[-1, 1]\<^sup>3\<close>, with one particle
  of velocity \<open>(1, 0, 0)\<close>, the phase returns with the position buffer overwritten by the
  node velocities: the nodes of tetrahedron 0 (nodes 0, 1, 3, 5) are at \<open>(1, 0, 0)\<close> and
  the other four at \<open>(0, 0, 0)\<close>.
\<close>

theorem particlesToMesh_overwrites_node_positions:
  "createRegularMesh (- 1, - 1, - 1) (1, 1, 1) 1 1 1 =
     Inr \<lparr> domainMin = (- 1, - 1, - 1), domainMax = (1, 1, 1),
           nodes = map Fin (nodes cubeMesh),
           nodeVelocities = map Fin (nodeVelocities cubeMesh),
           tetrahedra = tetrahedra cubeMesh, nodeCount = 8, tetCount = 5 \<rparr>
   \<and> nodes (mesh cubeSim) = [- 1, - 1, - 1,   1, - 1, - 1,   - 1, 1, - 1,   1, 1, - 1,
                              - 1, - 1, 1,     1, - 1, 1,     - 1, 1, 1,     1, 1, 1]
   \<and> particlesToMesh cubeSim =
       Inr (cubeSim\<lparr> mesh := cubeMesh
              \<lparr> nodes := [1, 0, 0,  1, 0, 0,  0, 0, 0,  1, 0, 0,
                           0, 0, 0,  1, 0, 0,  0, 0, 0,  0, 0, 0],
                nodeVelocities := [1, 0, 0,  1, 0, 0,  0, 0, 0,  1, 0, 0,
                                    0, 0, 0,  1, 0, 0,  0, 0, 0,  0, 0, 0] \<rparr> \<rparr>)"
  by code_simp

section \<open>The range of the per-particle loops\<close>

lemma advectParticle_slot:
  assumes "3 * k + 2 < length xs" "3 * k + 2 < length vel"
  shows "advectParticle dt vel (3 * k) xs
     = Some (xs[3 * k := xs ! (3 * k) + vel ! (3 * k) * dt,
                3 * k + 1 := xs ! (3 * k + 1) + vel ! (3 * k + 1) * dt,
                3 * k + 2 := xs ! (3 * k + 2) + vel ! (3 * k + 2) * dt])"
  using assms by (simp add: advectParticle_def advectEntry_def rd_def)

lemma advect_loop:
  assumes shaped: "particlesShaped ps"
  shows "foldOpt (advectParticle dt (velocities ps)) (slotOffsets (positions ps)) (positions ps)
     = Some (map (\<lambda>i. positions ps ! i + velocities ps ! i * dt) [0..<maxParticles ps * 3])"
proof -
  let ?n = "maxParticles ps"
  from shaped have lp: "length (positions ps) = ?n * 3" and lv: "length (velocities ps) = ?n * 3"
    by (simp_all add: particlesShaped_def)
  have "foldOpt (advectParticle dt (velocities ps)) (map (\<lambda>k. 3 * k) [0..<?n]) (positions ps)
      = Some (map (\<lambda>i. (\<lambda>i old. old + velocities ps ! i * dt) i (positions ps ! i)) [0..<?n * 3])"
    using lp lv by (intro foldOpt_slots) (simp_all add: advectParticle_slot)
  then show ?thesis unfolding slotOffsets_shaped [OF lp] by simp
qed

lemma collideAxis_entry:
  assumes "i < length pos"
  shows "collideAxis lo hi i (pos, vel)
     = (pos[i := collidedPosition lo hi (pos ! i)],
        vel[i := collidedVelocity lo hi (pos ! i) (vel ! i)])"
  using assms by (simp add: collideAxis_def rd_def collidedPosition_def collidedVelocity_def)

lemma collideParticle_slot:
  assumes "3 * k + 2 < length pos"
  shows "collideParticle dmin dmax (3 * k) (pos, vel)
     = (pos[3 * k := collidedPosition (component 0 dmin) (component 0 dmax) (pos ! (3 * k)),
            3 * k + 1 := collidedPosition (component 1 dmin) (component 1 dmax) (pos ! (3 * k + 1)),
            3 * k + 2 := collidedPosition (component 2 dmin) (component 2 dmax) (pos ! (3 * k + 2))],
        vel[3 * k := collidedVelocity (component 0 dmin) (component 0 dmax) (pos ! (3 * k)) (vel ! (3 * k)),
            3 * k + 1 := collidedVelocity (component 1 dmin) (component 1 dmax) (pos ! (3 * k + 1)) (vel ! (3 * k + 1)),
            3 * k + 2 := collidedVelocity (component 2 dmin) (component 2 dmax) (pos ! (3 * k + 2)) (vel ! (3 * k + 2))])"
  using assms
  by (cases dmin; cases dmax) (simp add: collideParticle_def collideAxis_entry)

lemma collide_loop:
  assumes shaped: "particlesShaped ps"
  shows "fold (collideParticle dmin dmax) (slotOffsets (positions ps)) (positions ps, velocities ps)
     = (map (\<lambda>i. collidedPosition (component (i mod 3) dmin) (component (i mod 3) dmax) (positions ps ! i))
          [0..<maxParticles ps * 3],
        map (\<lambda>i. collidedVelocity (component (i mod 3) dmin) (component (i mod 3) dmax)
                    (positions ps ! i) (velocities ps ! i))
          [0..<maxParticles ps * 3])"
proof -
  let ?n = "maxParticles ps"
  from shaped have lp: "length (positions ps) = ?n * 3" and lv: "length (velocities ps) = ?n * 3"
    by (simp_all add: particlesShaped_def)
  have "fold (collideParticle dmin dmax) (map (\<lambda>k. 3 * k) [0..<?n]) (positions ps, velocities ps)
     = (map (\<lambda>i. (\<lambda>i x v. collidedPosition (component (i mod 3) dmin) (component (i mod 3) dmax) x)
                  i (positions ps ! i) (velocities ps ! i))
          [0..<?n * 3],
        map (\<lambda>i. (\<lambda>i x v. collidedVelocity (component (i mod 3) dmin) (component (i mod 3) dmax) x v)
                  i (positions ps ! i) (velocities ps ! i))
          [0..<?n * 3])"
    using lp lv by (intro fold_slots_pair) (simp_all add: collideParticle_slot slot_arith)
  then show ?thesis unfolding slotOffsets_shaped [OF lp] by simp
qed

lemma advectParticles_all_slots:
  assumes shaped: "particlesShaped (particles s)"
  shows "advectParticles s =
     Inr (s\<lparr> particles := (particles s)
            \<lparr> positions := map (\<lambda>i. positions (particles s) ! i
                                       + velocities (particles s) ! i * timeStep s)
                                [0..<maxParticles (particles s) * 3],
              count := real (maxParticles (particles s)) \<rparr> \<rparr>)"
  by (simp add: advectParticles_def Let_def advect_loop [OF shaped] setPositions_def
      typedArraySet_def)

lemma handleCollisions_all_slots:
  assumes shaped: "particlesShaped (particles s)"
  shows "handleCollisions s =
     Inr (s\<lparr> particles := (particles s)
            \<lparr> positions := map (\<lambda>i. collidedPosition (component (i mod 3) (simDomainMin s))
                                        (component (i mod 3) (simDomainMax s))
                                        (positions (particles s) ! i))
                                [0..<maxParticles (particles s) * 3],
              velocities := map (\<lambda>i. collidedVelocity (component (i mod 3) (simDomainMin s))
                                         (component (i mod 3) (simDomainMax s))
                                         (positions (particles s) ! i) (velocities (particles s) ! i))
                                 [0..<maxParticles (particles s) * 3],
              count := real (maxParticles (particles s)) \<rparr> \<rparr>)"
  by (simp add: handleCollisions_def Let_def collide_loop [OF shaped] setPositions_def
      setVelocities_def typedArraySet_def)

lemma meshToParticles_all_slots:
  assumes shaped: "particlesShaped (particles s)"
    and vs: "length (nodeVelocities (mesh s)) = length (nodes (mesh s))"
  shows "meshToParticles s =
     Inr (s\<lparr> particles := (particles s)
            \<lparr> velocities :=
                map (\<lambda>i. if 0 \<le> locate (mesh s) (slot (positions (particles s)) (i div 3))
                          then component (i mod 3)
                                 (interpolatedVelocity (mesh s)
                                    (nat (locate (mesh s) (slot (positions (particles s)) (i div 3))))
                                    (slot (positions (particles s)) (i div 3)))
                          else velocities (particles s) ! i)
                  [0..<maxParticles (particles s) * 3] \<rparr> \<rparr>)"
  by (simp add: meshToParticles_def Let_def g2p_loop [OF shaped vs] setVelocities_def
      typedArraySet_def)

subsection \<open>P2G on the buffer it overwrites\<close>

text \<open>
  The scatter loop of one particle adds \<open>w * v\<close> to the three entries of each node of
  the tetrahedron, once for each occurrence of the node, and \<open>w\<close> to its weight.
\<close>

lemma slot_index:
  "(n * 3) div 3 = (n::nat)" "(n * 3 + 1) div 3 = n" "(n * 3 + 2) div 3 = n"
  "(n * 3) mod 3 = 0" "(n * 3 + 1) mod 3 = 1" "(n * 3 + 2) mod 3 = 2"
  "Suc (n * 3) div 3 = n" "Suc (Suc (n * 3)) div 3 = n"
  "Suc (n * 3) mod 3 = Suc 0" "Suc (Suc (n * 3)) mod 3 = 2"
  by presburger+

lemma scatter_node:
  assumes "3 * n + 2 < length ns"
  shows "scatter v (Some n, w) (ns, ws)
     = (map (\<lambda>i. ns ! i + (if i div 3 = n then w * component (i mod 3) v else 0)) [0..<length ns],
        ws[n := ws ! n + w])"
proof -
  obtain vx vy vz where v: "v = (vx, vy, vz)" by (cases v)
  let ?r = "ns[n * 3 := ns ! (n * 3) + w * vx, n * 3 + 1 := ns ! (n * 3 + 1) + w * vy,
              n * 3 + 2 := ns ! (n * 3 + 2) + w * vz]"
  have "?r = map (\<lambda>i. ns ! i + (if i div 3 = n then w * component (i mod 3) v else 0)) [0..<length ns]"
  proof (rule nth_equalityI)
    show "length ?r = length (map (\<lambda>i. ns ! i + (if i div 3 = n then w * component (i mod 3) v else 0)) [0..<length ns])"
      by simp
  next
    fix i assume "i < length ?r"
    then have i: "i < length ns" by simp
    consider "i = n * 3" | "i = n * 3 + 1" | "i = n * 3 + 2" | "i div 3 \<noteq> n" by arith
    then show "?r ! i = map (\<lambda>i. ns ! i + (if i div 3 = n then w * component (i mod 3) v else 0)) [0..<length ns] ! i"
    proof cases
      case 1 then show ?thesis using i by (simp add: v slot_index)
    next
      case 2 then show ?thesis using i by (simp add: v slot_index)
    next
      case 3 then show ?thesis using i by (simp add: v slot_index)
    next
      case 4
      then have "i \<noteq> n * 3" "i \<noteq> n * 3 + 1" "i \<noteq> n * 3 + 2" by auto
      with 4 i show ?thesis by simp
    qed
  qed
  then show ?thesis by (simp add: v Let_def)
qed

lemma weights_fold:
  "fold (\<lambda>n ws. ws[n := ws ! n + w]) T ws
     = map (\<lambda>k. ws ! k + real (count_list T k) * (w::real)) [0..<length ws]"
proof (induction T arbitrary: ws)
  case Nil
  show ?case by (simp add: map_nth)
next
  case (Cons n T)
  show ?case
    by (simp add: Cons.IH) (auto simp add: nth_list_update algebra_simps)
qed

lemma scatter_tet:
  assumes "\<forall>n \<in> set T. 3 * n + 2 < length ns"
  shows "fold (scatter v) (zip (map Some T) (map (\<lambda>_. w) T)) (ns, ws)
     = (map (\<lambda>i. ns ! i + real (count_list T (i div 3)) * (w * component (i mod 3) v)) [0..<length ns],
        map (\<lambda>k. ws ! k + real (count_list T k) * w) [0..<length ws])"
  using assms
proof (induction T arbitrary: ns ws)
  case Nil
  show ?case by (simp add: map_nth)
next
  case (Cons n T)
  from Cons.prems have n: "3 * n + 2 < length ns" by simp
  let ?ns = "map (\<lambda>i. ns ! i + (if i div 3 = n then w * component (i mod 3) v else 0)) [0..<length ns]"
  from Cons.prems have "\<forall>n \<in> set T. 3 * n + 2 < length ?ns" by simp
  from Cons.IH [OF this, of "ws[n := ws ! n + w]"]
  show ?case
    by (simp add: scatter_node [OF n]) (auto simp add: nth_list_update algebra_simps)
qed

text \<open>
  While the node buffer holds at every node a multiple of one vector \<open>a\<close>, the four
  points of tetrahedron 0 are collinear: its volume is 0, its computed barycentric
  coordinates are \<open>(1/4, 1/4, 1/4, 1/4)\<close> for every point, and the scan returns 0.
\<close>

lemma getTetrahedron_nodes [simp]:
  "getTetrahedron (m\<lparr> nodes := ns \<rparr>) t = getTetrahedron m t"
  by (simp add: getTetrahedron_def)

lemma triple_collinear:
  "triple (c0 * a, c0 * b, c0 * c) (c1 * a, c1 * b, c1 * c) (c2 * a, c2 * b, c2 * c)
     (c3 * a, c3 * b, c3 * c) = 0"
  unfolding triple.simps by algebra

lemma spread_bary:
  assumes tet: "getTetrahedron m 0 = [Some n0, Some n1, Some n2, Some n3]"
    and rng: "n0 * 3 + 2 < L" "n1 * 3 + 2 < L" "n2 * 3 + 2 < L" "n3 * 3 + 2 < L"
  shows "computeBarycentricCoordinates
           (m\<lparr> nodes := map (\<lambda>i. f (i div 3) * component (i mod 3) a) [0..<L] \<rparr>) 0 x y z
         = Some [1 / 4, 1 / 4, 1 / 4, 1 / 4]"
proof -
  obtain a1 a2 a3 where a: "a = (a1, a2, a3)" by (cases a)
  let ?ns = "map (\<lambda>i. f (i div 3) * component (i mod 3) a) [0..<L]"
  have pos: "nodePosition ?ns (Some n) = Some (f n * a1, f n * a2, f n * a3)" if "n * 3 + 2 < L" for n
    using that by (simp add: nodePosition_def rd_def a slot_index)
  have pts: "tetPoints (m\<lparr> nodes := ?ns \<rparr>) 0
      = Some ((f n0 * a1, f n0 * a2, f n0 * a3), (f n1 * a1, f n1 * a2, f n1 * a3),
              (f n2 * a1, f n2 * a2, f n2 * a3), (f n3 * a1, f n3 * a2, f n3 * a3))"
    using pos [OF rng(1)] pos [OF rng(2)] pos [OF rng(3)] pos [OF rng(4)]
    by (simp add: tetPoints_def tet)
  show ?thesis
    by (simp add: computeBarycentricCoordinates_def pts volume_triple triple_collinear
        del: triple.simps tetrahedronVolume.simps)
qed

lemma find_first:
  assumes "0 < tetCount m"
    and "computeBarycentricCoordinates m 0 x y z = Some [1 / 4, 1 / 4, 1 / 4, 1 / 4]"
  shows "findContainingTetrahedron m x y z = 0"
  using assms by (simp add: findContainingTetrahedron_def findFrom.simps [of m x y z 0] allNonNegative_def)

lemma component_slotSum:
  "component c (slotSum buf (Suc j)) = component c (slotSum buf j) + component c (slot buf j)"
  by (simp add: slotSum_def slot_def)

lemma p2gParticle_located:
  assumes rp: "rd3 (positions ps) p = Some (px, py, pz)"
    and rv: "rd3 (velocities ps) p = Some v"
    and f: "findContainingTetrahedron (m\<lparr> nodes := ns \<rparr>) px py pz = 0"
    and b: "computeBarycentricCoordinates (m\<lparr> nodes := ns \<rparr>) 0 px py pz = Some bary"
  shows "p2gParticle ps m p (ns, ws) = Some (fold (scatter v) (zip (getTetrahedron m 0) bary) (ns, ws))"
  by (simp add: p2gParticle_def rp rv f b Let_def)

lemma p2gParticle_first:
  assumes tet: "getTetrahedron m 0 = [Some n0, Some n1, Some n2, Some n3]"
    and rng: "n0 * 3 + 2 < L" "n1 * 3 + 2 < L" "n2 * 3 + 2 < L" "n3 * 3 + 2 < L"
    and tets: "0 < tetCount m"
    and slots: "3 * k + 2 < length (positions ps)" "3 * k + 2 < length (velocities ps)"
  shows "p2gParticle ps m (3 * k)
           (map (\<lambda>i. real (count_list [n0, n1, n2, n3] (i div 3)) / 4
                      * component (i mod 3) (slotSum (velocities ps) k)) [0..<L],
            map (\<lambda>n. real (count_list [n0, n1, n2, n3] n) * (real k / 4)) [0..<L'])
         = Some (map (\<lambda>i. real (count_list [n0, n1, n2, n3] (i div 3)) / 4
                      * component (i mod 3) (slotSum (velocities ps) (Suc k))) [0..<L],
                 map (\<lambda>n. real (count_list [n0, n1, n2, n3] n) * (real (Suc k) / 4)) [0..<L'])"
proof -
  let ?T = "[n0, n1, n2, n3]"
  define ns where "ns = map (\<lambda>i. real (count_list ?T (i div 3)) / 4
                      * component (i mod 3) (slotSum (velocities ps) k)) [0..<L]"
  define ws where "ws = map (\<lambda>n. real (count_list ?T n) * (real k / 4)) [0..<L']"
  define v where "v = slot (velocities ps) k"
  have ln: "length ns = L" and lw: "length ws = L'" by (simp_all add: ns_def ws_def)
  obtain px py pz where p: "slot (positions ps) k = (px, py, pz)" by (cases "slot (positions ps) k")
  have rp: "rd3 (positions ps) (3 * k) = Some (px, py, pz)" using rd3_slot [OF slots(1)] p by simp
  have rv: "rd3 (velocities ps) (3 * k) = Some v" unfolding v_def by (rule rd3_slot [OF slots(2)])
  have b: "computeBarycentricCoordinates (m\<lparr> nodes := ns \<rparr>) 0 px py pz = Some [1 / 4, 1 / 4, 1 / 4, 1 / 4]"
    unfolding ns_def by (rule spread_bary [OF tet rng])
  have tc: "0 < tetCount (m\<lparr> nodes := ns \<rparr>)" using tets by simp
  have f: "findContainingTetrahedron (m\<lparr> nodes := ns \<rparr>) px py pz = 0" by (rule find_first [OF tc b])
  have inr: "\<forall>n \<in> set ?T. 3 * n + 2 < length ns" using rng by (simp add: mult.commute ln)
  have z: "zip (getTetrahedron m 0) [1 / 4, 1 / 4, 1 / 4, 1 / 4 :: real] = zip (map Some ?T) (map (\<lambda>_. 1 / 4) ?T)"
    by (simp add: tet)
  have e1: "map (\<lambda>i. ns ! i + real (count_list ?T (i div 3)) * (1 / 4 * component (i mod 3) v)) [0..<length ns]
      = map (\<lambda>i. real (count_list ?T (i div 3)) / 4
                      * component (i mod 3) (slotSum (velocities ps) (Suc k))) [0..<L]"
    by (rule nth_equalityI)
      (simp_all add: ln ns_def v_def component_slotSum algebra_simps del: count_list.simps)
  have e2: "map (\<lambda>n. ws ! n + real (count_list ?T n) * (1 / 4)) [0..<length ws]
      = map (\<lambda>n. real (count_list ?T n) * (real (Suc k) / 4)) [0..<L']"
    by (rule nth_equalityI)
      (simp_all add: lw ws_def algebra_simps del: count_list.simps)
  have "p2gParticle ps m (3 * k) (ns, ws)
      = Some (fold (scatter v) (zip (getTetrahedron m 0) [1 / 4, 1 / 4, 1 / 4, 1 / 4]) (ns, ws))"
    by (rule p2gParticle_located [OF rp rv f b])
  also have "\<dots> = Some (map (\<lambda>i. ns ! i + real (count_list ?T (i div 3)) * (1 / 4 * component (i mod 3) v)) [0..<length ns],
         map (\<lambda>n. ws ! n + real (count_list ?T n) * (1 / 4)) [0..<length ws])"
    unfolding z by (simp only: scatter_tet [OF inr])
  finally show ?thesis unfolding e1 e2 unfolding ns_def ws_def .
qed

lemma p2g_loop:
  assumes tet: "getTetrahedron m 0 = [Some n0, Some n1, Some n2, Some n3]"
    and rng: "n0 * 3 + 2 < L" "n1 * 3 + 2 < L" "n2 * 3 + 2 < L" "n3 * 3 + 2 < L"
    and tets: "0 < tetCount m"
    and lp: "length (positions ps) = J * 3" and lv: "length (velocities ps) = J * 3"
  shows "j \<le> J \<Longrightarrow>
     foldOpt (p2gParticle ps m) (map (\<lambda>k. 3 * k) [0..<j]) (replicate L 0, replicate L' 0)
       = Some (map (\<lambda>i. real (count_list [n0, n1, n2, n3] (i div 3)) / 4
                      * component (i mod 3) (slotSum (velocities ps) j)) [0..<L],
                 map (\<lambda>n. real (count_list [n0, n1, n2, n3] n) * (real j / 4)) [0..<L'])"
proof (induction j)
  case 0
  have "map (\<lambda>i. real (count_list [n0, n1, n2, n3] (i div 3)) / 4
                      * component (i mod 3) (slotSum (velocities ps) 0)) [0..<L] = replicate L 0"
    by (rule nth_equalityI) (simp_all add: slotSum_def del: count_list.simps)
  moreover have "map (\<lambda>n. real (count_list [n0, n1, n2, n3] n) * (real (0::nat) / 4)) [0..<L'] = replicate L' 0"
    by (rule nth_equalityI) (simp_all del: count_list.simps)
  ultimately show ?case by (simp del: count_list.simps)
next
  case (Suc j)
  then have j: "j \<le> J" "3 * j + 2 < length (positions ps)" "3 * j + 2 < length (velocities ps)"
    using lp lv by simp_all
  have "foldOpt (p2gParticle ps m) (map (\<lambda>k. 3 * k) [0..<Suc j]) (replicate L 0, replicate L' 0)
      = (case foldOpt (p2gParticle ps m) (map (\<lambda>k. 3 * k) [0..<j]) (replicate L 0, replicate L' 0) of
           None \<Rightarrow> None | Some st \<Rightarrow> foldOpt (p2gParticle ps m) [3 * j] st)"
    by (simp add: foldOpt_append)
  also have "\<dots> = p2gParticle ps m (3 * j)
        (map (\<lambda>i. real (count_list [n0, n1, n2, n3] (i div 3)) / 4
                      * component (i mod 3) (slotSum (velocities ps) j)) [0..<L],
         map (\<lambda>n. real (count_list [n0, n1, n2, n3] n) * (real j / 4)) [0..<L'])"
    unfolding Suc.IH [OF j(1)] by (simp split: option.splits)
  also note p2gParticle_first [OF tet rng tets j(2) j(3)]
  finally show ?case .
qed

lemma normalizeNode_map:
  "normalizeNode ws i ns
     = map (\<lambda>j. if j div 3 = i
                 then (case rd ws i of None \<Rightarrow> ns ! j | Some w \<Rightarrow> if 0 < w then ns ! j / w else ns ! j)
                 else ns ! j) [0..<length ns]"
proof (cases "rd ws i")
  case None
  then show ?thesis by (simp add: normalizeNode_def map_nth cong: if_cong)
next
  case (Some w)
  show ?thesis
  proof (cases "0 < w")
    case False
    with Some show ?thesis by (simp add: normalizeNode_def map_nth cong: if_cong)
  next
    case True
    let ?r = "ns[i * 3 := ns ! (i * 3) / w, i * 3 + 1 := ns ! (i * 3 + 1) / w, i * 3 + 2 := ns ! (i * 3 + 2) / w]"
    have "?r = map (\<lambda>j. if j div 3 = i then ns ! j / w else ns ! j) [0..<length ns]"
    proof (rule nth_equalityI)
      show "length ?r = length (map (\<lambda>j. if j div 3 = i then ns ! j / w else ns ! j) [0..<length ns])"
        by simp
    next
      fix j assume "j < length ?r"
      then have j: "j < length ns" by simp
      consider "j = i * 3" | "j = i * 3 + 1" | "j = i * 3 + 2" | "j div 3 \<noteq> i" by arith
      then show "?r ! j = map (\<lambda>j. if j div 3 = i then ns ! j / w else ns ! j) [0..<length ns] ! j"
      proof cases
        case 1 then show ?thesis using j by (simp add: slot_index)
      next
        case 2 then show ?thesis using j by (simp add: slot_index)
      next
        case 3 then show ?thesis using j by (simp add: slot_index)
      next
        case 4
        then have "j \<noteq> i * 3" "j \<noteq> i * 3 + 1" "j \<noteq> i * 3 + 2" by auto
        with 4 j show ?thesis by simp
      qed
    qed
    with Some True show ?thesis by (simp add: normalizeNode_def Let_def cong: if_cong)
  qed
qed

lemma normalize_fold:
  "fold (normalizeNode ws) [0..<M] ns
     = map (\<lambda>j. if j div 3 < M
                 then (case rd ws (j div 3) of None \<Rightarrow> ns ! j | Some w \<Rightarrow> if 0 < w then ns ! j / w else ns ! j)
                 else ns ! j) [0..<length ns]"
proof (induction M)
  case 0
  show ?case by (simp add: map_nth)
next
  case (Suc M)
  show ?case
    unfolding upt_Suc_append [OF le0] fold_append o_def fold_simps Suc.IH
    by (subst normalizeNode_map, rule nth_equalityI)
      (auto simp add: less_Suc_eq cong: if_cong split: option.splits)
qed

lemma first_tetrahedron_nodes:
  assumes valid: "meshIndicesValid m" and tets: "0 < tetCount m"
  obtains n0 n1 n2 n3 where "getTetrahedron m 0 = [Some n0, Some n1, Some n2, Some n3]"
    and "n0 < nodeCount m" "n1 < nodeCount m" "n2 < nodeCount m" "n3 < nodeCount m"
proof -
  from valid tets have l: "3 < length (tetrahedra m)" by (simp add: meshIndicesValid_def)
  from valid have b: "\<And>j. j < length (tetrahedra m) \<Longrightarrow> tetrahedra m ! j < nodeCount m"
    by (simp add: meshIndicesValid_def)
  have "getTetrahedron m 0 = [Some (tetrahedra m ! 0), Some (tetrahedra m ! 1),
      Some (tetrahedra m ! 2), Some (tetrahedra m ! 3)]"
    using l by (auto simp add: getTetrahedron_def rd_def numeral_2_eq_2)
  moreover have "tetrahedra m ! 0 < nodeCount m" "tetrahedra m ! 1 < nodeCount m"
    "tetrahedra m ! 2 < nodeCount m" "tetrahedra m ! 3 < nodeCount m"
    using l by (auto intro: b)
  ultimately show ?thesis by (rule that)
qed

lemma component_capacityMean:
  "component c (capacityMean ps) = component c (slotSum (velocities ps) (maxParticles ps)) / real (maxParticles ps)"
  by (cases "slotSum (velocities ps) (maxParticles ps)") (simp add: capacityMean_def)

lemma particlesToMesh_first_tetrahedron:
  assumes shaped: "particlesShaped (particles s)"
    and valid: "meshIndicesValid (mesh s)"
    and nodes: "length (nodes (mesh s)) = nodeCount (mesh s) * 3"
    and tets: "0 < tetCount (mesh s)"
    and some: "0 < maxParticles (particles s)"
  shows "particlesToMesh s =
     Inr (s\<lparr> mesh := (mesh s)
            \<lparr> nodes := firstTetrahedronBuffer (mesh s) (capacityMean (particles s)),
              nodeVelocities := firstTetrahedronBuffer (mesh s) (capacityMean (particles s)) \<rparr> \<rparr>)"
proof -
  let ?ps = "particles s" and ?m = "mesh s"
  let ?J = "maxParticles ?ps" and ?L = "length (nodes ?m)"
  from shaped have lp: "length (positions ?ps) = ?J * 3" and lv: "length (velocities ?ps) = ?J * 3"
    by (simp_all add: particlesShaped_def)
  from first_tetrahedron_nodes [OF valid tets] obtain n0 n1 n2 n3
    where tet: "getTetrahedron ?m 0 = [Some n0, Some n1, Some n2, Some n3]"
      and lt: "n0 < nodeCount ?m" "n1 < nodeCount ?m" "n2 < nodeCount ?m" "n3 < nodeCount ?m"
    by blast
  from lt nodes have rng: "n0 * 3 + 2 < ?L" "n1 * 3 + 2 < ?L" "n2 * 3 + 2 < ?L" "n3 * 3 + 2 < ?L"
    by simp_all
  let ?T = "[n0, n1, n2, n3]"
  define ns where "ns = map (\<lambda>i. real (count_list ?T (i div 3)) / 4
                      * component (i mod 3) (slotSum (velocities ?ps) ?J)) [0..<?L]"
  define ws where "ws = map (\<lambda>n. real (count_list ?T n) * (real ?J / 4)) [0..<?L div 3]"
  have loop: "foldOpt (p2gParticle ?ps ?m) (slotOffsets (positions ?ps))
        (map (\<lambda>_. 0) (nodes ?m), replicate (length (map (\<lambda>_. 0 :: real) (nodes ?m)) div 3) 0) = Some (ns, ws)"
    unfolding slotOffsets_shaped [OF lp] ns_def ws_def
    using p2g_loop [OF tet rng tets lp lv order_refl, of "?L div 3"]
    by (simp add: map_replicate_const del: count_list.simps)
  have norm: "fold (normalizeNode ws) [0..<(length ns + 2) div 3] ns
      = firstTetrahedronBuffer ?m (capacityMean ?ps)"
    unfolding normalize_fold firstTetrahedronBuffer_def
  proof (rule nth_equalityI)
    show "length (map (\<lambda>j. if j div 3 < (length ns + 2) div 3
                 then (case rd ws (j div 3) of None \<Rightarrow> ns ! j | Some w \<Rightarrow> if 0 < w then ns ! j / w else ns ! j)
                 else ns ! j) [0..<length ns])
        = length (map (\<lambda>i. if Some (i div 3) \<in> set (getTetrahedron ?m 0)
                 then component (i mod 3) (capacityMean ?ps) else 0) [0..<?L])"
      by (simp add: ns_def)
  next
    fix i
    assume "i < length (map (\<lambda>j. if j div 3 < (length ns + 2) div 3
                 then (case rd ws (j div 3) of None \<Rightarrow> ns ! j | Some w \<Rightarrow> if 0 < w then ns ! j / w else ns ! j)
                 else ns ! j) [0..<length ns])"
    then have i: "i < ?L" by (simp add: ns_def)
    then have d: "i div 3 < ?L div 3" using nodes by simp
    have w: "rd ws (i div 3) = Some (real (count_list ?T (i div 3)) * (real ?J / 4))"
      using d by (simp add: rd_def ws_def del: count_list.simps)
    have n: "ns ! i = real (count_list ?T (i div 3)) / 4 * component (i mod 3) (slotSum (velocities ?ps) ?J)"
      using i by (simp add: ns_def del: count_list.simps)
    have mem: "Some (i div 3) \<in> set (getTetrahedron ?m 0) \<longleftrightarrow> 0 < count_list ?T (i div 3)"
      by (auto simp add: tet)
    have lt3: "i div 3 < (length ns + 2) div 3" using i by (simp add: ns_def)
    show "map (\<lambda>j. if j div 3 < (length ns + 2) div 3
                 then (case rd ws (j div 3) of None \<Rightarrow> ns ! j | Some w \<Rightarrow> if 0 < w then ns ! j / w else ns ! j)
                 else ns ! j) [0..<length ns] ! i
        = map (\<lambda>i. if Some (i div 3) \<in> set (getTetrahedron ?m 0)
                 then component (i mod 3) (capacityMean ?ps) else 0) [0..<?L] ! i"
    proof (cases "0 < count_list ?T (i div 3)")
      case True
      with some have "0 < real (count_list ?T (i div 3)) * (real ?J / 4)" by simp
      with True some i lt3 show ?thesis
        by (simp add: w n mem component_capacityMean ns_def del: count_list.simps)
    next
      case False
      with i lt3 show ?thesis
        by (simp add: w n mem ns_def del: count_list.simps)
    qed
  qed
  show ?thesis
    unfolding particlesToMesh_def Let_def loop using norm by simp
qed

text \<open>
  When the slots from \<open>c\<close> on hold the velocity \<open>(0, 0, 0)\<close>, as the inactive slots do
  after \<open>initialize\<close>, the sum over the capacity is the sum over the first \<open>c\<close> slots:
  the mean over the capacity is then \<open>c / maxParticles\<close> times the mean velocity of the
  first \<open>c\<close> slots.
\<close>

lemma slotSum_inactive:
  assumes "c \<le> J" and "\<forall>k. c \<le> k \<and> k < J \<longrightarrow> slot buf k = (0, 0, 0)"
  shows "slotSum buf J = slotSum buf c"
  using assms
proof (induction J)
  case 0
  then show ?case by simp
next
  case (Suc J)
  show ?case
  proof (cases "c = Suc J")
    case True
    then show ?thesis by simp
  next
    case False
    with Suc.prems have c: "c \<le> J" by simp
    from Suc.prems c have z: "slot buf J = (0, 0, 0)" by simp
    from Suc.prems have "\<forall>k. c \<le> k \<and> k < J \<longrightarrow> slot buf k = (0, 0, 0)" by simp
    from Suc.IH [OF c this] have "slotSum buf J = slotSum buf c" .
    moreover from z have "slotSum buf (Suc J) = slotSum buf J" by (simp add: slotSum_def slot_def)
    ultimately show ?thesis by simp
  qed
qed

text \<open>
  Claim C10: the range of the per-particle loops of a step, and what the inactive slots of
  the capacity do in P2G. For a simulator whose particle buffers have the shape that
  \<open>initialize\<close> allocates, with a capacity of at least one particle, and whose mesh has
  at least one tetrahedron, valid node indices and three coordinates for each node,
  whatever the live count is: the loops run over the slot offsets
  \<open>0, 3, ..., 3 (maxParticles - 1)\<close>, that is over every slot of the capacity. G2P makes
  the point location for every slot and writes every located slot; advection moves every
  slot and collision clamps every slot (and both leave \<open>count = maxParticles\<close>). P2G
  makes its point locations on the node buffer that it has zeroed and accumulates into:
  the nodes of tetrahedron 0 hold multiples of one vector at every step, so tetrahedron 0
  is degenerate and matches every point. Every slot of the capacity, live or inactive and
  wherever it lies, therefore adds the weight \<open>1/4\<close> to each node of tetrahedron 0, and
  P2G returns with the sum of the velocities of all slots divided by \<open>maxParticles\<close> at
  each node of tetrahedron 0 and with \<open>(0, 0, 0)\<close> at every other node. The inactive
  slots dilute the velocity of the nodes of tetrahedron 0, which need not be the
  tetrahedron containing the origin.
\<close>

theorem particle_loops_cover_capacity:
  assumes shaped: "particlesShaped (particles s)"
    and valid: "meshIndicesValid (mesh s)"
    and nodes: "length (nodes (mesh s)) = nodeCount (mesh s) * 3"
    and vs: "length (nodeVelocities (mesh s)) = length (nodes (mesh s))"
    and tets: "0 < tetCount (mesh s)"
    and some: "0 < maxParticles (particles s)"
  shows "slotOffsets (positions (particles s)) = map (\<lambda>k. 3 * k) [0..<maxParticles (particles s)]
    \<and> particlesToMesh s =
         Inr (s\<lparr> mesh := (mesh s)
            \<lparr> nodes := firstTetrahedronBuffer (mesh s) (capacityMean (particles s)),
              nodeVelocities := firstTetrahedronBuffer (mesh s) (capacityMean (particles s)) \<rparr> \<rparr>)
    \<and> meshToParticles s =
         Inr (s\<lparr> particles := (particles s)
            \<lparr> velocities :=
                map (\<lambda>i. if 0 \<le> locate (mesh s) (slot (positions (particles s)) (i div 3))
                          then component (i mod 3)
                                 (interpolatedVelocity (mesh s)
                                    (nat (locate (mesh s) (slot (positions (particles s)) (i div 3))))
                                    (slot (positions (particles s)) (i div 3)))
                          else velocities (particles s) ! i)
                  [0..<maxParticles (particles s) * 3] \<rparr> \<rparr>)
    \<and> advectParticles s =
         Inr (s\<lparr> particles := (particles s)
            \<lparr> positions := map (\<lambda>i. positions (particles s) ! i
                                       + velocities (particles s) ! i * timeStep s)
                                [0..<maxParticles (particles s) * 3],
              count := real (maxParticles (particles s)) \<rparr> \<rparr>)
    \<and> handleCollisions s =
         Inr (s\<lparr> particles := (particles s)
            \<lparr> positions := map (\<lambda>i. collidedPosition (component (i mod 3) (simDomainMin s))
                                        (component (i mod 3) (simDomainMax s))
                                        (positions (particles s) ! i))
                                [0..<maxParticles (particles s) * 3],
              velocities := map (\<lambda>i. collidedVelocity (component (i mod 3) (simDomainMin s))
                                         (component (i mod 3) (simDomainMax s))
                                         (positions (particles s) ! i) (velocities (particles s) ! i))
                                 [0..<maxParticles (particles s) * 3],
              count := real (maxParticles (particles s)) \<rparr> \<rparr>)"
proof -
  from shaped have lp: "length (positions (particles s)) = maxParticles (particles s) * 3"
    by (simp add: particlesShaped_def)
  from slotOffsets_shaped [OF lp] particlesToMesh_first_tetrahedron [OF shaped valid nodes tets some]
    meshToParticles_all_slots [OF shaped vs]
    advectParticles_all_slots [OF shaped] handleCollisions_all_slots [OF shaped]
  show ?thesis by (intro conjI)
qed

text \<open>
  Claim C10 says that in P2G an inactive slot adds its barycentric weights to the node
  accumulators of the tetrahedron containing the origin. In \<open>sparseSim\<close>, on the mesh of
  \<open>createRegularMesh(1, 1, 1)\<close>, the tetrahedron that contains the origin is
  tetrahedron 4, with the nodes 0, 3, 5 and 6, and the origin has the barycentric
  coordinates \<open>(1/4, 1/4, 1/4, 1/4)\<close> in it. Inside P2G the live particle of slot 0 is
  located in tetrahedron 0, with the nodes 0, 1, 3 and 5, and then the inactive slots 1
  and 2 as well: each adds \<open>1/4\<close> to the weights of the nodes 0, 1, 3 and 5. Node 1, not
  a node of the tetrahedron containing the origin, receives the weights of the inactive
  slots, and node 6, a node of that tetrahedron, receives none.
\<close>

theorem particlesToMesh_origin_tetrahedron_counterexample:
  "locate (mesh sparseSim) (0, 0, 0) = 4
   \<and> getTetrahedron (mesh sparseSim) 4 = [Some 0, Some 3, Some 5, Some 6]
   \<and> baryAt (mesh sparseSim) 4 (0, 0, 0) = Some [1 / 4, 1 / 4, 1 / 4, 1 / 4]
   \<and> getTetrahedron (mesh sparseSim) 0 = [Some 0, Some 1, Some 3, Some 5]
   \<and> slot (positions (particles sparseSim)) 1 = (0, 0, 0)
   \<and> slot (velocities (particles sparseSim)) 1 = (0, 0, 0)
   \<and> slot (positions (particles sparseSim)) 2 = (0, 0, 0)
   \<and> slot (velocities (particles sparseSim)) 2 = (0, 0, 0)
   \<and> p2gParticle (particles sparseSim) (mesh sparseSim) 0
        (map (\<lambda>_. 0) (nodes (mesh sparseSim)), replicate 8 0)
       = Some ([3 / 4, 0, 0,  3 / 4, 0, 0,  0, 0, 0,  3 / 4, 0, 0,
                0, 0, 0,  3 / 4, 0, 0,  0, 0, 0,  0, 0, 0],
               [1 / 4, 1 / 4, 0, 1 / 4, 0, 1 / 4, 0, 0])
   \<and> p2gParticle (particles sparseSim) (mesh sparseSim) 3
        ([3 / 4, 0, 0,  3 / 4, 0, 0,  0, 0, 0,  3 / 4, 0, 0,
          0, 0, 0,  3 / 4, 0, 0,  0, 0, 0,  0, 0, 0],
         [1 / 4, 1 / 4, 0, 1 / 4, 0, 1 / 4, 0, 0])
       = Some ([3 / 4, 0, 0,  3 / 4, 0, 0,  0, 0, 0,  3 / 4, 0, 0,
                0, 0, 0,  3 / 4, 0, 0,  0, 0, 0,  0, 0, 0],
               [1 / 2, 1 / 2, 0, 1 / 2, 0, 1 / 2, 0, 0])
   \<and> p2gParticle (particles sparseSim) (mesh sparseSim) 6
        ([3 / 4, 0, 0,  3 / 4, 0, 0,  0, 0, 0,  3 / 4, 0, 0,
          0, 0, 0,  3 / 4, 0, 0,  0, 0, 0,  0, 0, 0],
         [1 / 2, 1 / 2, 0, 1 / 2, 0, 1 / 2, 0, 0])
       = Some ([3 / 4, 0, 0,  3 / 4, 0, 0,  0, 0, 0,  3 / 4, 0, 0,
                0, 0, 0,  3 / 4, 0, 0,  0, 0, 0,  0, 0, 0],
               [3 / 4, 3 / 4, 0, 3 / 4, 0, 3 / 4, 0, 0])"
  by code_simp

lemma sparseSim_fields:
  "particles sparseSim = sparseParticles" "mesh sparseSim = cubeMesh"
  "maxParticles sparseParticles = 3"
  "positions sparseParticles = [1 / 2, - 1 / 2, - 1 / 4,  0, 0, 0,  0, 0, 0]"
  "velocities sparseParticles = [3, 0, 0,  0, 0, 0,  0, 0, 0]"
  "mesh denseSim = cubeMesh"
  "maxParticles (particles denseSim) = 1"
  "positions (particles denseSim) = [1 / 2, - 1 / 2, - 1 / 4]"
  "velocities (particles denseSim) = [3, 0, 0]"
  by (simp_all add: sparseSim_def sparseParticles_def denseSim_def)

lemma cubeMesh_valid:
  "meshIndicesValid cubeMesh" "length (nodes cubeMesh) = nodeCount cubeMesh * 3"
  "length (nodeVelocities cubeMesh) = length (nodes cubeMesh)" "0 < tetCount cubeMesh"
  by (simp_all add: meshIndicesValid_def cubeMesh_def)

lemma sparseSim_mean:
  "capacityMean (particles sparseSim) = (1, 0, 0)"
  "firstTetrahedronBuffer (mesh sparseSim) (capacityMean (particles sparseSim))
     = [1, 0, 0,  1, 0, 0,  0, 0, 0,  1, 0, 0,  0, 0, 0,  1, 0, 0,  0, 0, 0,  0, 0, 0]"
  "capacityMean (particles denseSim) = (3, 0, 0)"
  "firstTetrahedronBuffer (mesh denseSim) (capacityMean (particles denseSim))
     = [3, 0, 0,  3, 0, 0,  0, 0, 0,  3, 0, 0,  0, 0, 0,  3, 0, 0,  0, 0, 0,  0, 0, 0]"
  by code_simp+

text \<open>
  In \<open>sparseSim\<close> the live count is 1 and the capacity 3. The loops visit the three slots;
  P2G yields the velocity \<open>(1, 0, 0)\<close>, a third of the velocity of the live particle, at
  the nodes 0, 1, 3 and 5 of tetrahedron 0, where the same particle alone (\<open>denseSim\<close>)
  yields \<open>(3, 0, 0)\<close>; advection leaves \<open>count = 3\<close>.
\<close>

theorem particle_loops_cover_capacity_witness:
  "count (particles sparseSim) < real (maxParticles (particles sparseSim))
   \<and> slotOffsets (positions (particles sparseSim)) = [0, 3, 6]
   \<and> capacityMean (particles sparseSim) = (1, 0, 0)
   \<and> particlesToMesh sparseSim =
        Inr (sparseSim\<lparr> mesh := cubeMesh
            \<lparr> nodes := [1, 0, 0,  1, 0, 0,  0, 0, 0,  1, 0, 0,
                         0, 0, 0,  1, 0, 0,  0, 0, 0,  0, 0, 0],
              nodeVelocities := [1, 0, 0,  1, 0, 0,  0, 0, 0,  1, 0, 0,
                                  0, 0, 0,  1, 0, 0,  0, 0, 0,  0, 0, 0] \<rparr> \<rparr>)
   \<and> particlesToMesh denseSim =
        Inr (denseSim\<lparr> mesh := cubeMesh
            \<lparr> nodes := [3, 0, 0,  3, 0, 0,  0, 0, 0,  3, 0, 0,
                         0, 0, 0,  3, 0, 0,  0, 0, 0,  0, 0, 0],
              nodeVelocities := [3, 0, 0,  3, 0, 0,  0, 0, 0,  3, 0, 0,
                                  0, 0, 0,  3, 0, 0,  0, 0, 0,  0, 0, 0] \<rparr> \<rparr>)
   \<and> advectParticles sparseSim =
        Inr (sparseSim\<lparr> particles := sparseParticles
            \<lparr> positions := [137 / 250, - 1 / 2, - 1 / 4,  0, 0, 0,  0, 0, 0], count := 3 \<rparr> \<rparr>)"
proof -
  have shaped: "particlesShaped (particles sparseSim)" "particlesShaped (particles denseSim)"
    by (simp_all add: particlesShaped_def sparseSim_fields)
  have some: "0 < maxParticles (particles sparseSim)" "0 < maxParticles (particles denseSim)"
    by (simp_all add: sparseSim_fields)
  have valid: "meshIndicesValid (mesh sparseSim)"
    "length (nodes (mesh sparseSim)) = nodeCount (mesh sparseSim) * 3"
    "length (nodeVelocities (mesh sparseSim)) = length (nodes (mesh sparseSim))"
    "0 < tetCount (mesh sparseSim)"
    by (simp_all add: sparseSim_fields cubeMesh_valid)
  have valid': "meshIndicesValid (mesh denseSim)"
    "length (nodes (mesh denseSim)) = nodeCount (mesh denseSim) * 3"
    "length (nodeVelocities (mesh denseSim)) = length (nodes (mesh denseSim))"
    "0 < tetCount (mesh denseSim)"
    by (simp_all add: sparseSim_fields cubeMesh_valid)
  note T = particle_loops_cover_capacity [OF shaped(1) valid some(1)]
  note T' = particle_loops_cover_capacity [OF shaped(2) valid' some(2)]
  have c: "count (particles sparseSim) < real (maxParticles (particles sparseSim))"
    by (simp add: sparseSim_def sparseParticles_def)
  from T have "slotOffsets (positions (particles sparseSim))
      = map (\<lambda>k. 3 * k) [0..<maxParticles (particles sparseSim)]" by (elim conjE)
  then have offs: "slotOffsets (positions (particles sparseSim)) = [0, 3, 6]"
    by (simp add: sparseSim_fields upt_rec)
  from T have "particlesToMesh sparseSim =
         Inr (sparseSim\<lparr> mesh := (mesh sparseSim)
            \<lparr> nodes := firstTetrahedronBuffer (mesh sparseSim) (capacityMean (particles sparseSim)),
              nodeVelocities := firstTetrahedronBuffer (mesh sparseSim) (capacityMean (particles sparseSim)) \<rparr> \<rparr>)"
    by (elim conjE)
  then have p2g: "particlesToMesh sparseSim =
        Inr (sparseSim\<lparr> mesh := cubeMesh
            \<lparr> nodes := [1, 0, 0,  1, 0, 0,  0, 0, 0,  1, 0, 0,
                         0, 0, 0,  1, 0, 0,  0, 0, 0,  0, 0, 0],
              nodeVelocities := [1, 0, 0,  1, 0, 0,  0, 0, 0,  1, 0, 0,
                                  0, 0, 0,  1, 0, 0,  0, 0, 0,  0, 0, 0] \<rparr> \<rparr>)"
    unfolding sparseSim_mean(2) by (simp only: sparseSim_fields(2))
  from T' have "particlesToMesh denseSim =
         Inr (denseSim\<lparr> mesh := (mesh denseSim)
            \<lparr> nodes := firstTetrahedronBuffer (mesh denseSim) (capacityMean (particles denseSim)),
              nodeVelocities := firstTetrahedronBuffer (mesh denseSim) (capacityMean (particles denseSim)) \<rparr> \<rparr>)"
    by (elim conjE)
  then have p2g': "particlesToMesh denseSim =
        Inr (denseSim\<lparr> mesh := cubeMesh
            \<lparr> nodes := [3, 0, 0,  3, 0, 0,  0, 0, 0,  3, 0, 0,
                         0, 0, 0,  3, 0, 0,  0, 0, 0,  0, 0, 0],
              nodeVelocities := [3, 0, 0,  3, 0, 0,  0, 0, 0,  3, 0, 0,
                                  0, 0, 0,  3, 0, 0,  0, 0, 0,  0, 0, 0] \<rparr> \<rparr>)"
    unfolding sparseSim_mean(4) by (simp only: sparseSim_fields(6))
  from T have "advectParticles sparseSim =
         Inr (sparseSim\<lparr> particles := (particles sparseSim)
            \<lparr> positions := map (\<lambda>i. positions (particles sparseSim) ! i
                                       + velocities (particles sparseSim) ! i * timeStep sparseSim)
                                [0..<maxParticles (particles sparseSim) * 3],
              count := real (maxParticles (particles sparseSim)) \<rparr> \<rparr>)" by (elim conjE)
  moreover have "map (\<lambda>i. positions (particles sparseSim) ! i
                                       + velocities (particles sparseSim) ! i * timeStep sparseSim)
                                [0..<maxParticles (particles sparseSim) * 3]
      = [137 / 250, - 1 / 2, - 1 / 4,  0, 0, 0,  0, 0, 0]"
    by (simp add: sparseSim_fields upt_rec) (simp add: sparseSim_def)
  ultimately have adv: "advectParticles sparseSim =
        Inr (sparseSim\<lparr> particles := sparseParticles
            \<lparr> positions := [137 / 250, - 1 / 2, - 1 / 4,  0, 0, 0,  0, 0, 0], count := 3 \<rparr> \<rparr>)"
    by (simp add: sparseSim_fields)
  from c offs sparseSim_mean(1) p2g p2g' adv show ?thesis by (intro conjI)
qed

end
